theory Spec2Isabelle
  imports Complex_Main
begin

section \<open>JavaScript numbers\<close>

text \<open>
  The calculator computes with JavaScript numbers. A number is modelled as \<open>NaN\<close>, one of
  the two infinities, or a finite value; arithmetic on finite values is the exact arithmetic
  of the reals (no rounding, no overflow, no underflow), and arithmetic on \<open>NaN\<close> and the
  infinities follows IEEE 754. The two zeros are one value: the code never divides by a
  value it has not compared with \<open>0\<close> first, and no comparison tells them apart.
\<close>

datatype jsnum = NaN | PInf | NInf | Fin real

fun isNaN :: "jsnum \<Rightarrow> bool" where
  "isNaN NaN = True"
| "isNaN _ = False"

fun isFinite :: "jsnum \<Rightarrow> bool" where
  "isFinite (Fin _) = True"
| "isFinite _ = False"

text \<open>\<open>a < b\<close>: false as soon as an operand is \<open>NaN\<close>.\<close>

fun js_lt :: "jsnum \<Rightarrow> jsnum \<Rightarrow> bool" where
  "js_lt (Fin a) (Fin b) = (a < b)"
| "js_lt NaN _ = False"
| "js_lt _ NaN = False"
| "js_lt _ NInf = False"
| "js_lt NInf _ = True"
| "js_lt PInf _ = False"
| "js_lt _ PInf = True"

definition js_gt :: "jsnum \<Rightarrow> jsnum \<Rightarrow> bool" where
  "js_gt a b = js_lt b a"

text \<open>\<open>a === b\<close> on numbers: \<open>NaN\<close> equals nothing.\<close>

definition js_eq :: "jsnum \<Rightarrow> jsnum \<Rightarrow> bool" where
  "js_eq a b = (a \<noteq> NaN \<and> a = b)"

fun js_abs :: "jsnum \<Rightarrow> jsnum" where
  "js_abs (Fin a) = Fin \<bar>a\<bar>"
| "js_abs NaN = NaN"
| "js_abs _ = PInf"

fun js_neg :: "jsnum \<Rightarrow> jsnum" where
  "js_neg (Fin a) = Fin (- a)"
| "js_neg NaN = NaN"
| "js_neg PInf = NInf"
| "js_neg NInf = PInf"

text \<open>The infinity with the sign of a nonzero real.\<close>

definition inf_of_sign :: "real \<Rightarrow> jsnum" where
  "inf_of_sign a = (if 0 < a then PInf else NInf)"

fun js_mul :: "jsnum \<Rightarrow> jsnum \<Rightarrow> jsnum" where
  "js_mul (Fin a) (Fin b) = Fin (a * b)"
| "js_mul NaN _ = NaN"
| "js_mul _ NaN = NaN"
| "js_mul (Fin a) PInf = (if a = 0 then NaN else inf_of_sign a)"
| "js_mul (Fin a) NInf = (if a = 0 then NaN else inf_of_sign (- a))"
| "js_mul PInf (Fin b) = (if b = 0 then NaN else inf_of_sign b)"
| "js_mul NInf (Fin b) = (if b = 0 then NaN else inf_of_sign (- b))"
| "js_mul PInf PInf = PInf"
| "js_mul NInf NInf = PInf"
| "js_mul PInf NInf = NInf"
| "js_mul NInf PInf = NInf"

fun js_add :: "jsnum \<Rightarrow> jsnum \<Rightarrow> jsnum" where
  "js_add (Fin a) (Fin b) = Fin (a + b)"
| "js_add NaN _ = NaN"
| "js_add _ NaN = NaN"
| "js_add PInf NInf = NaN"
| "js_add NInf PInf = NaN"
| "js_add PInf _ = PInf"
| "js_add NInf _ = NInf"
| "js_add _ PInf = PInf"
| "js_add _ NInf = NInf"

definition js_sub :: "jsnum \<Rightarrow> jsnum \<Rightarrow> jsnum" where
  "js_sub a b = js_add a (js_neg b)"

text \<open>
  A nonzero finite value divided by zero is the infinity of the dividend's sign (the zero
  taken as positive).
\<close>

fun js_div :: "jsnum \<Rightarrow> jsnum \<Rightarrow> jsnum" where
  "js_div (Fin a) (Fin b) =
     (if b = 0 then (if a = 0 then NaN else inf_of_sign a) else Fin (a / b))"
| "js_div NaN _ = NaN"
| "js_div _ NaN = NaN"
| "js_div (Fin a) _ = Fin 0"
| "js_div PInf (Fin b) = (if b < 0 then NInf else PInf)"
| "js_div NInf (Fin b) = (if b < 0 then PInf else NInf)"
| "js_div _ _ = NaN"

fun js_sqrt :: "jsnum \<Rightarrow> jsnum" where
  "js_sqrt (Fin a) = (if a < 0 then NaN else Fin (sqrt a))"
| "js_sqrt PInf = PInf"
| "js_sqrt _ = NaN"

fun js_acos :: "jsnum \<Rightarrow> jsnum" where
  "js_acos (Fin a) = (if a < - 1 \<or> 1 < a then NaN else Fin (arccos a))"
| "js_acos _ = NaN"

text \<open>The tangent has no value at its poles.\<close>

fun js_tan :: "jsnum \<Rightarrow> jsnum" where
  "js_tan (Fin a) = (if cos a = 0 then NaN else Fin (tan a))"
| "js_tan _ = NaN"

fun js_sin :: "jsnum \<Rightarrow> jsnum" where
  "js_sin (Fin a) = Fin (sin a)"
| "js_sin _ = NaN"

section \<open>Strings: \<open>trim\<close>, \<open>parseFloat\<close>, \<open>toUpperCase\<close>, \<open>toFixed\<close>\<close>

text \<open>
  A string is a list of characters (code units up to 255). White space is what
  \<open>String.prototype.trim\<close> and \<open>parseFloat\<close> skip: tab, line feed, vertical tab, form feed,
  carriage return, space and no-break space.
\<close>

definition isWhiteSpace :: "char \<Rightarrow> bool" where
  "isWhiteSpace c = (c \<in> set [CHR 0x09, CHR 0x0A, CHR 0x0B, CHR 0x0C, CHR 0x0D, CHR 0x20, CHR 0xA0])"

definition trim :: "string \<Rightarrow> string" where
  "trim s = rev (dropWhile isWhiteSpace (rev (dropWhile isWhiteSpace s)))"

definition isDigit :: "char \<Rightarrow> bool" where
  "isDigit c = (c \<in> set ''0123456789'')"

definition digitVal :: "char \<Rightarrow> nat" where
  "digitVal c = of_char c - 48"

text \<open>The value of a run of decimal digits.\<close>

definition digitsVal :: "string \<Rightarrow> nat" where
  "digitsVal ds = foldl (\<lambda>acc c. 10 * acc + digitVal c) 0 ds"

definition startsWith :: "string \<Rightarrow> string \<Rightarrow> bool" where
  "startsWith s p = (take (length p) s = p)"

text \<open>
  The exponent part \<open>e\<close>, \<open>E\<close> with an optional sign and at least one digit, at the head
  of the rest of the literal; without the digits there is no exponent part and the literal
  ends before the \<open>e\<close>.
\<close>

definition exponentPart :: "string \<Rightarrow> int" where
  "exponentPart r =
     (case r of
        [] \<Rightarrow> 0
      | c # r1 \<Rightarrow>
          if c = CHR ''e'' \<or> c = CHR ''E'' then
            (case r1 of
               [] \<Rightarrow> 0
             | d # r2 \<Rightarrow>
                 if d = CHR ''+'' then int (digitsVal (takeWhile isDigit r2))
                 else if d = CHR ''-'' then - int (digitsVal (takeWhile isDigit r2))
                 else int (digitsVal (takeWhile isDigit r1)))
          else 0)"

definition scale10 :: "real \<Rightarrow> int \<Rightarrow> real" where
  "scale10 m e = (if 0 \<le> e then m * 10 ^ nat e else m / 10 ^ nat (- e))"

text \<open>
  The longest prefix that is an unsigned \<open>StrDecimalLiteral\<close>: \<open>Infinity\<close>, digits with
  an optional fraction, or a fraction alone, then an optional exponent part.
\<close>

definition unsignedLiteral :: "string \<Rightarrow> jsnum" where
  "unsignedLiteral s =
     (if startsWith s ''Infinity'' then PInf
      else
        let ip = takeWhile isDigit s; r = dropWhile isDigit s in
        (case r of
           [] \<Rightarrow> if ip = [] then NaN else Fin (real (digitsVal ip))
         | c # r1 \<Rightarrow>
             if c = CHR ''.'' then
               (let fp = takeWhile isDigit r1; r2 = dropWhile isDigit r1 in
                if ip = [] \<and> fp = [] then NaN
                else Fin (scale10 (real (digitsVal ip) + real (digitsVal fp) / 10 ^ length fp)
                            (exponentPart r2)))
             else if ip = [] then NaN
             else Fin (scale10 (real (digitsVal ip)) (exponentPart r))))"

definition parseFloat :: "string \<Rightarrow> jsnum" where
  "parseFloat s =
     (case dropWhile isWhiteSpace s of
        [] \<Rightarrow> NaN
      | c # r \<Rightarrow>
          if c = CHR ''+'' then unsignedLiteral r
          else if c = CHR ''-'' then js_neg (unsignedLiteral r)
          else unsignedLiteral (c # r))"

definition upperChar :: "char \<Rightarrow> char" where
  "upperChar c =
     (case map_of (zip ''abcdefghijklmnopqrstuvwxyz'' ''ABCDEFGHIJKLMNOPQRSTUVWXYZ'') c of
        None \<Rightarrow> c
      | Some u \<Rightarrow> u)"

definition toUpperCase :: "string \<Rightarrow> string" where
  "toUpperCase s = map upperChar s"

definition digitChar :: "nat \<Rightarrow> char" where
  "digitChar d = ''0123456789'' ! d"

text \<open>The decimal digits of a natural number, without leading zeros (\<open>0\<close> is \<open>''0''\<close>).\<close>

function natDigits :: "nat \<Rightarrow> string" where
  "natDigits n = (if n < 10 then [digitChar n] else natDigits (n div 10) @ [digitChar (n mod 10)])"
  by pat_completeness auto
termination
  by (relation "measure id") auto

declare natDigits.simps [simp del]

text \<open>
  \<open>Number.prototype.toFixed(f)\<close>. A value that is not finite prints as \<open>Number::toString\<close>
  prints it. A finite value loses its sign, and below \<open>10^21\<close> is rounded to the integer \<open>n\<close>
  with \<open>n / 10^f\<close> nearest to it (the larger one of two), printed with \<open>f\<close> digits after the
  point. From \<open>10^21\<close> on the result is \<open>Number::toString\<close> of the value, the shortest
  decimal that reads back as the same double: that has no counterpart on the reals, and is
  the parameter \<open>numberToString\<close>.
\<close>

definition toFixed :: "(real \<Rightarrow> string) \<Rightarrow> nat \<Rightarrow> jsnum \<Rightarrow> string" where
  "toFixed numberToString f x =
     (case x of
        NaN \<Rightarrow> ''NaN''
      | PInf \<Rightarrow> ''Infinity''
      | NInf \<Rightarrow> ''-Infinity''
      | Fin r \<Rightarrow>
          let s = (if r < 0 then ''-'' else ''''); a = \<bar>r\<bar> in
          if 10 ^ 21 \<le> a then s @ numberToString a
          else
            let n = nat \<lfloor>a * 10 ^ f + 1 / 2\<rfloor>;
                m = natDigits n;
                m1 = (if f \<noteq> 0 \<and> length m \<le> f then replicate (f + 1 - length m) CHR ''0'' @ m else m);
                k = length m1
            in if f \<noteq> 0 then s @ take (k - f) m1 @ ''.'' @ drop (k - f) m1 else s @ m1)"

section \<open>The panel: four input elements, the status line and the session\<close>

text \<open>
  The four inputs \<open>#kw\<close>, \<open>#kva\<close>, \<open>#kvar\<close> and \<open>#pf\<close> of the power-factor panel.
\<close>

datatype fid = Kw | Kva | Kvar | Pf

fun idOf :: "fid \<Rightarrow> string" where
  "idOf Kw = ''kw''"
| "idOf Kva = ''kva''"
| "idOf Kvar = ''kvar''"
| "idOf Pf = ''pf''"

text \<open>\<open>const inputs = [kwInput, kvaInput, kvarInput, pfInput]\<close>\<close>

definition inputIds :: "fid list" where
  "inputIds = [Kw, Kva, Kvar, Pf]"

record element =
  el_value :: string
  el_readOnly :: bool
  el_placeholder :: string

text \<open>
  The state \<open>init\<close> closes over: the elements, the text of the status line, and the two
  session variables \<open>initialCalculationDone\<close> and \<open>sourceFieldIds\<close>.
\<close>

record panel =
  inputs :: "fid \<Rightarrow> element"
  statusText :: string
  initialCalculationDone :: bool
  sourceFieldIds :: "fid list"

definition updInput :: "fid \<Rightarrow> (element \<Rightarrow> element) \<Rightarrow> panel \<Rightarrow> panel" where
  "updInput k f s = s\<lparr>inputs := (inputs s)(k := f (inputs s k))\<rparr>"

definition clearStatus :: "panel \<Rightarrow> panel" where
  "clearStatus s = s\<lparr>statusText := ''''\<rparr>"

definition resetPlaceholder :: "fid \<Rightarrow> element \<Rightarrow> element" where
  "resetPlaceholder k e =
     (if idOf k = ''pf'' then e\<lparr>el_placeholder := ''Enter value (0-1)''\<rparr>
      else e\<lparr>el_placeholder := ''Enter value''\<rparr>)"

definition setReadOnly :: "fid \<Rightarrow> bool \<Rightarrow> element \<Rightarrow> element" where
  "setReadOnly k isReadOnly e =
     (let e1 = (if el_readOnly e \<noteq> isReadOnly then e\<lparr>el_readOnly := isReadOnly\<rparr> else e) in
      if isReadOnly \<and> el_value e1 \<noteq> '''' then e1\<lparr>el_placeholder := ''Calculated''\<rparr>
      else if \<not> isReadOnly then (if el_value e1 = '''' then resetPlaceholder k e1 else e1)
      else e1)"

text \<open>The body of the \<open>forEach\<close> of \<open>resetToInitialState\<close>, on one input.\<close>

definition resetInput :: "fid \<Rightarrow> element \<Rightarrow> element" where
  "resetInput k e =
     (let e1 = (if el_readOnly e \<or> (trim (el_value e) \<noteq> '''' \<and> isNaN (parseFloat (el_value e)))
                then e\<lparr>el_value := ''''\<rparr> else e)
      in resetPlaceholder k (setReadOnly k False e1))"

definition resetToInitialState :: "panel \<Rightarrow> panel" where
  "resetToInitialState s =
     foldl (\<lambda>s1 k. updInput k (resetInput k) s1)
       (s\<lparr>initialCalculationDone := False, sourceFieldIds := []\<rparr>) inputIds"

text \<open>The handler of the clear button (the focus it gives to \<open>#kw\<close> is not part of the state).\<close>

definition clearFields :: "panel \<Rightarrow> panel" where
  "clearFields s =
     clearStatus
       (foldl (\<lambda>s1 k. updInput k (\<lambda>e. resetPlaceholder k (setReadOnly k False (e\<lparr>el_value := ''''\<rparr>))) s1)
          (s\<lparr>initialCalculationDone := False, sourceFieldIds := []\<rparr>) inputIds)"

section \<open>Objects keyed by field id\<close>

text \<open>
  \<open>currentValidInputs\<close>, \<open>sourceValues\<close> and \<open>potentialValidInputs\<close> are objects whose
  keys are field ids. \<open>Object.keys\<close> lists the keys in the order they were first assigned,
  so an object is a list of pairs: assigning to a key it has replaces the value in place,
  assigning to a new key appends.
\<close>

type_synonym obj = "(fid \<times> jsnum) list"

fun setProp :: "fid \<Rightarrow> jsnum \<Rightarrow> obj \<Rightarrow> obj" where
  "setProp k v [] = [(k, v)]"
| "setProp k v (p # ps) = (if fst p = k then (k, v) # ps else p # setProp k v ps)"

definition objectKeys :: "obj \<Rightarrow> fid list" where
  "objectKeys ob = map fst ob"

text \<open>
  Reading a property for arithmetic. A missing property is \<open>undefined\<close>, which every
  arithmetic operation and comparison of the code treats as \<open>NaN\<close>.
\<close>

definition getProp :: "obj \<Rightarrow> fid \<Rightarrow> jsnum" where
  "getProp ob k = (case map_of ob k of None \<Rightarrow> NaN | Some v \<Rightarrow> v)"

text \<open>
  \<open>Array.prototype.sort()\<close> with no comparator orders strings by their code units.
\<close>

fun str_lt :: "string \<Rightarrow> string \<Rightarrow> bool" where
  "str_lt [] [] = False"
| "str_lt [] (y # ys) = True"
| "str_lt (x # xs) [] = False"
| "str_lt (x # xs) (y # ys) =
     (if (of_char x :: nat) < of_char y then True
      else if (of_char y :: nat) < of_char x then False
      else str_lt xs ys)"

fun insertKey :: "fid \<Rightarrow> fid list \<Rightarrow> fid list" where
  "insertKey k [] = [k]"
| "insertKey k (x # xs) = (if str_lt (idOf k) (idOf x) then k # x # xs else x # insertKey k xs)"

definition sortKeys :: "fid list \<Rightarrow> fid list" where
  "sortKeys ks = foldr insertKey ks []"

section \<open>The six formulas\<close>

record results =
  res_kw :: jsnum
  res_kva :: jsnum
  res_kvar :: jsnum
  res_pf :: jsnum

text \<open>\<open>let results = { kw: NaN, kva: NaN, kvar: NaN, pf: NaN }\<close>\<close>

definition noResults :: results where
  "noResults = \<lparr>res_kw = NaN, res_kva = NaN, res_kvar = NaN, res_pf = NaN\<rparr>"

text \<open>\<open>results[id]\<close>\<close>

fun resultOf :: "results \<Rightarrow> fid \<Rightarrow> jsnum" where
  "resultOf r Kw = res_kw r"
| "resultOf r Kva = res_kva r"
| "resultOf r Kvar = res_kvar r"
| "resultOf r Pf = res_pf r"

text \<open>
  Each case of the \<open>switch\<close> is a function of \<open>currentValidInputs\<close>; a \<open>throw new Error(m)\<close>
  is the value \<open>Inl m\<close>.
\<close>

definition case_kva_kw :: "obj \<Rightarrow> string + results" where
  "case_kva_kw cvi =
     (let kw = getProp cvi Kw; kva = getProp cvi Kva in
      if js_eq kva (Fin 0) \<and> \<not> js_eq kw (Fin 0) then Inl ''kVA cannot be 0 if kW is non-zero.''
      else if js_gt (js_abs kw) (js_abs kva) then Inl ''Absolute kW cannot be greater than absolute kVA.''
      else
        let pf = (if js_eq kva (Fin 0) then (if js_eq kw (Fin 0) then Fin 1 else NaN) else js_div kw kva);
            kvar = (if js_lt (js_mul kva kva) (js_mul kw kw) then Fin 0
                    else js_sqrt (js_sub (js_mul kva kva) (js_mul kw kw)))
        in if isNaN pf then Inl ''Calculation resulted in undefined PF.''
           else Inr (noResults\<lparr>res_kw := kw, res_kva := kva, res_pf := pf, res_kvar := kvar\<rparr>))"

definition case_kvar_kw :: "obj \<Rightarrow> string + results" where
  "case_kvar_kw cvi =
     (let kw = getProp cvi Kw; kvar = getProp cvi Kvar;
          kva = js_sqrt (js_add (js_mul kw kw) (js_mul kvar kvar));
          pf = (if js_eq kva (Fin 0) then (if js_eq kw (Fin 0) then Fin 1 else NaN) else js_div kw kva)
      in if isNaN pf then Inl ''Calculation resulted in undefined PF.''
         else Inr (noResults\<lparr>res_kw := kw, res_kvar := kvar, res_kva := kva, res_pf := pf\<rparr>))"

definition case_kw_pf :: "obj \<Rightarrow> string + results" where
  "case_kw_pf cvi =
     (let kw = getProp cvi Kw; pf = getProp cvi Pf in
      if js_eq pf (Fin 0) \<and> \<not> js_eq kw (Fin 0) then Inl ''PF cannot be 0 if kW is non-zero.''
      else if js_lt pf (Fin 0) \<or> js_gt pf (Fin 1) then Inl ''PF must be between 0 and 1.''
      else
        let kva = (if js_eq pf (Fin 0) then (if js_eq kw (Fin 0) then Fin 0 else PInf) else js_div kw pf)
        in if \<not> isFinite kva then Inl ''kVA is infinite (PF=0 with non-zero kW).''
           else
             let kvar = (if js_lt (js_mul kva kva) (js_mul kw kw) then Fin 0
                         else js_sqrt (js_sub (js_mul kva kva) (js_mul kw kw)))
             in Inr (noResults\<lparr>res_kw := kw, res_pf := pf, res_kva := kva, res_kvar := kvar\<rparr>))"

definition case_kva_kvar :: "obj \<Rightarrow> string + results" where
  "case_kva_kvar cvi =
     (let kva = getProp cvi Kva; kvar = getProp cvi Kvar in
      if js_gt (js_abs kvar) (js_abs kva) then Inl ''Absolute kVAR cannot be greater than absolute kVA.''
      else
        let kw = (if js_lt (js_mul kva kva) (js_mul kvar kvar) then Fin 0
                  else js_sqrt (js_sub (js_mul kva kva) (js_mul kvar kvar)));
            pf = (if js_eq kva (Fin 0) then (if js_eq kw (Fin 0) then Fin 1 else NaN) else js_div kw kva)
        in if isNaN pf then Inl ''Calculation resulted in undefined PF.''
           else Inr (noResults\<lparr>res_kva := kva, res_kvar := kvar, res_kw := kw, res_pf := pf\<rparr>))"

definition case_kva_pf :: "obj \<Rightarrow> string + results" where
  "case_kva_pf cvi =
     (let kva = getProp cvi Kva; pf = getProp cvi Pf in
      if js_lt pf (Fin 0) \<or> js_gt pf (Fin 1) then Inl ''PF must be between 0 and 1.''
      else
        let kw = js_mul kva pf;
            kvar = (if js_lt (js_mul kva kva) (js_mul kw kw) then Fin 0
                    else js_sqrt (js_sub (js_mul kva kva) (js_mul kw kw)))
        in Inr (noResults\<lparr>res_kva := kva, res_pf := pf, res_kw := kw, res_kvar := kvar\<rparr>))"

definition case_kvar_pf :: "obj \<Rightarrow> string + results" where
  "case_kvar_pf cvi =
     (let kvar = getProp cvi Kvar; pf = getProp cvi Pf in
      if js_lt pf (Fin 0) \<or> js_gt pf (Fin 1) then Inl ''PF must be between 0 and 1.''
      else if js_eq pf (Fin 1) \<and> \<not> js_eq kvar (Fin 0) then Inl ''PF cannot be 1 if kVAR is non-zero.''
      else if js_eq pf (Fin 0) \<and> js_eq kvar (Fin 0) then
        Inr (noResults\<lparr>res_kvar := kvar, res_pf := pf, res_kw := Fin 0, res_kva := Fin 0\<rparr>)
      else if js_eq pf (Fin 1) then
        Inl ''Cannot calculate from kVAR and PF=1. Please provide kW or kVA instead.''
      else if js_eq pf (Fin 0) then
        Inr (noResults\<lparr>res_kvar := kvar, res_pf := pf, res_kw := Fin 0, res_kva := js_abs kvar\<rparr>)
      else
        let angle = js_acos pf;
            kw = (if js_lt (js_abs pf) (Fin (1 / 10 ^ 9)) then Fin 0 else js_div kvar (js_tan angle));
            kva = (if js_lt (js_abs (js_sub pf (Fin 1))) (Fin (1 / 10 ^ 9)) then js_abs kw
                   else js_div kvar (js_sin angle))
        in Inr (noResults\<lparr>res_kvar := kvar, res_pf := pf, res_kw := kw, res_kva := kva\<rparr>))"

text \<open>
  The body of the \<open>try\<close> block: the keys sorted, the pair key built from the two of them,
  the \<open>switch\<close> on it. (The file holds two copies of the module with the same logic; the
  message of the internal error is that of the first copy.)
\<close>

definition resolve :: "obj \<Rightarrow> string + results" where
  "resolve currentValidInputs =
     (let sortedKeys = sortKeys (objectKeys currentValidInputs) in
      if length sortedKeys \<noteq> 2 then Inl ''Internal error: Expected 2 valid inputs.''
      else
        let pairKey = idOf (sortedKeys ! 0) @ ''-'' @ idOf (sortedKeys ! 1) in
        if pairKey = ''kva-kw'' then case_kva_kw currentValidInputs
        else if pairKey = ''kvar-kw'' then case_kvar_kw currentValidInputs
        else if pairKey = ''kw-pf'' then case_kw_pf currentValidInputs
        else if pairKey = ''kva-kvar'' then case_kva_kvar currentValidInputs
        else if pairKey = ''kva-pf'' then case_kva_pf currentValidInputs
        else if pairKey = ''kvar-pf'' then case_kvar_pf currentValidInputs
        else Inl ''Invalid input pair detected.'')"

section \<open>\<open>calculatePowerFactor\<close>\<close>

text \<open>
  The body of the \<open>forEach\<close> over \<open>sourceFieldIds\<close> in recalculation mode. It carries the
  panel (the callback writes the status line and may call \<open>resetToInitialState\<close>),
  \<open>proceedRecalc\<close> and \<open>sourceValues\<close>. The \<open>forEach\<close> runs over the array \<open>sourceFieldIds\<close>
  held when it started, also after a reset has put a new empty array in the variable.
\<close>

definition recalcStep :: "panel \<times> bool \<times> obj \<Rightarrow> fid \<Rightarrow> panel \<times> bool \<times> obj" where
  "recalcStep acc ident =
     (case acc of (s, proceedRecalc, sourceValues) \<Rightarrow>
        let inputElement = inputs s ident;
            v = parseFloat (el_value inputElement);
            sp = (if trim (el_value inputElement) = '''' \<or> isNaN v then
                    (s\<lparr>statusText := ''Please provide a valid number for '' @ toUpperCase (idOf ident) @ ''.''\<rparr>, False)
                  else if (ident = Kw \<or> ident = Kva \<or> ident = Kvar) \<and> js_lt v (Fin 0) then
                    (s\<lparr>statusText := ''Value for '' @ toUpperCase (idOf ident) @ '' cannot be negative.''\<rparr>, False)
                  else if ident = Pf \<and> (js_lt v (Fin 0) \<or> js_gt v (Fin 1)) then
                    (s\<lparr>statusText := ''Power Factor (PF) must be between 0 and 1.''\<rparr>, False)
                  else (s, proceedRecalc))
        in if \<not> snd sp then (resetToInitialState (fst sp), snd sp, sourceValues)
           else (fst sp, snd sp, setProp ident v sourceValues))"

text \<open>
  The body of the \<open>forEach\<close> over \<open>inputs\<close> in initial mode, carrying the panel (for the
  status line), \<open>potentialValidInputs\<close>, \<open>validCount\<close> and \<open>hasInvalidFormat\<close>.
\<close>

definition initialStep :: "panel \<times> obj \<times> nat \<times> bool \<Rightarrow> fid \<Rightarrow> panel \<times> obj \<times> nat \<times> bool" where
  "initialStep acc key =
     (case acc of (s, potentialValidInputs, validCount, hasInvalidFormat) \<Rightarrow>
        let inputElement = inputs s key;
            v = parseFloat (el_value inputElement)
        in if trim (el_value inputElement) \<noteq> '''' then
             (if \<not> isNaN v then
                (if (key = Kw \<or> key = Kva \<or> key = Kvar) \<and> js_lt v (Fin 0) then
                   (s\<lparr>statusText := ''Value for '' @ toUpperCase (idOf key) @ '' cannot be negative.''\<rparr>,
                    potentialValidInputs, validCount, True)
                 else if key = Pf \<and> (js_lt v (Fin 0) \<or> js_gt v (Fin 1)) then
                   (s\<lparr>statusText := ''Power Factor (PF) must be between 0 and 1.''\<rparr>,
                    potentialValidInputs, validCount, True)
                 else (s, setProp key v potentialValidInputs, validCount + 1, hasInvalidFormat))
              else
                (s\<lparr>statusText := ''Invalid number entered for '' @ toUpperCase (idOf key) @ ''.''\<rparr>,
                 potentialValidInputs, validCount, True))
           else acc)"

text \<open>
  One derived field receiving its result: \<open>NaN\<close> empties the field and leaves it editable;
  any other value is set to \<open>0\<close> when its magnitude is under \<open>1e-9\<close>, printed with three
  decimals, and the field made read-only.
\<close>

definition showResult :: "(real \<Rightarrow> string) \<Rightarrow> fid \<Rightarrow> jsnum \<Rightarrow> element \<Rightarrow> element" where
  "showResult numberToString k outputValue e =
     (if isNaN outputValue then resetPlaceholder k (setReadOnly k False (e\<lparr>el_value := ''''\<rparr>))
      else
        let ov = (if js_lt (js_abs outputValue) (Fin (1 / 10 ^ 9)) then Fin 0 else outputValue)
        in setReadOnly k True (e\<lparr>el_value := toFixed numberToString 3 ov\<rparr>))"

text \<open>
  The part common to both modes: the \<open>try\<close> block with its \<open>catch\<close>, then the update of
  the target fields, of the source fields and of \<open>initialCalculationDone\<close>.
\<close>

definition performCalculation :: "(real \<Rightarrow> string) \<Rightarrow> panel \<Rightarrow> obj \<Rightarrow> fid list \<Rightarrow> panel" where
  "performCalculation numberToString s currentValidInputs targetFieldIds =
     (case resolve currentValidInputs of
        Inl message \<Rightarrow> resetToInitialState (s\<lparr>statusText := ''Calculation Error: '' @ message\<rparr>)
      | Inr res \<Rightarrow>
          let s1 = foldl (\<lambda>s' t. updInput t (showResult numberToString t (resultOf res t)) s') s targetFieldIds;
              s2 = foldl (\<lambda>s' i. updInput i (setReadOnly i False) s') s1 (sourceFieldIds s1)
          in if \<not> initialCalculationDone s2 then s2\<lparr>initialCalculationDone := True\<rparr> else s2)"

definition targetsOf :: "fid list \<Rightarrow> fid list" where
  "targetsOf sources = filter (\<lambda>k. k \<notin> set sources) inputIds"

definition calculatePowerFactor :: "(real \<Rightarrow> string) \<Rightarrow> panel \<Rightarrow> panel" where
  "calculatePowerFactor numberToString s0 =
     (let s = clearStatus s0 in
      if initialCalculationDone s then
        (case foldl recalcStep (s, True, []) (sourceFieldIds s) of
           (s1, proceedRecalc, sourceValues) \<Rightarrow>
             if \<not> proceedRecalc then s1
             else performCalculation numberToString s1 sourceValues (targetsOf (sourceFieldIds s1)))
      else
        (case foldl initialStep (s, [], 0, False) inputIds of
           (s1, potentialValidInputs, validCount, hasInvalidFormat) \<Rightarrow>
             if hasInvalidFormat then resetToInitialState s1
             else if validCount \<noteq> 2 then
               resetToInitialState
                 (if 2 < validCount then s1\<lparr>statusText := ''Please provide exactly two values.''\<rparr>
                  else if validCount = 1 then s1\<lparr>statusText := ''Please provide one more value.''\<rparr>
                  else clearStatus s1)
             else
               let s2 = s1\<lparr>sourceFieldIds := objectKeys potentialValidInputs\<rparr>
               in performCalculation numberToString s2 potentialValidInputs (targetsOf (sourceFieldIds s2))))"

text \<open>The panel as the page first shows it.\<close>

definition initialPanel :: panel where
  "initialPanel =
     \<lparr>inputs = (\<lambda>k. \<lparr>el_value = '''', el_readOnly = False,
                      el_placeholder = (if k = Pf then ''Enter value (0-1)'' else ''Enter value'')\<rparr>),
      statusText = '''', initialCalculationDone = False, sourceFieldIds = []\<rparr>"

text \<open>The user (or a script) putting a text in an input.\<close>

definition setValue :: "fid \<Rightarrow> string \<Rightarrow> panel \<Rightarrow> panel" where
  "setValue k t s = updInput k (\<lambda>e. e\<lparr>el_value := t\<rparr>) s"

section \<open>The vocabulary of the specification\<close>

text \<open>
  The domain constraint of a quantity, as both validation loops test it: a number that is
  not negative and, for the power factor, not above \<open>1\<close>.
\<close>

definition inDomain :: "fid \<Rightarrow> jsnum \<Rightarrow> bool" where
  "inDomain k v = (\<not> isNaN v \<and> \<not> js_lt v (Fin 0) \<and> (if k = Pf then \<not> js_gt v (Fin 1) else True))"


text \<open>
  The validator of the specification, in its words: the outcome for one quantity and its
  raw text. A text is empty when nothing is left of it once trimmed, and numeric when
  \<open>parseFloat\<close> reads a number from it.
\<close>

datatype validation = Empty | InvalidFormat fid | OutOfDomain fid | Valid fid jsnum

definition validate :: "fid \<Rightarrow> string \<Rightarrow> validation" where
  "validate k t =
     (if trim t = '''' then Empty
      else if isNaN (parseFloat t) then InvalidFormat k
      else if \<not> inDomain k (parseFloat t) then OutOfDomain k
      else Valid k (parseFloat t))"

fun isValid :: "validation \<Rightarrow> bool" where
  "isValid (Valid _ _) = True"
| "isValid _ = False"

fun isRejection :: "validation \<Rightarrow> bool" where
  "isRejection (InvalidFormat _) = True"
| "isRejection (OutOfDomain _) = True"
| "isRejection _ = False"

text \<open>The validation outcome of input \<open>k\<close> of a panel.\<close>

definition fieldCheck :: "panel \<Rightarrow> fid \<Rightarrow> validation" where
  "fieldCheck s k = validate k (el_value (inputs s k))"

text \<open>The object the recalculation loop builds from the source fields when all are valid.\<close>

definition sourceValuesOf :: "panel \<Rightarrow> fid list \<Rightarrow> obj" where
  "sourceValuesOf s ids = foldl (\<lambda>ob k. setProp k (parseFloat (el_value (inputs s k))) ob) [] ids"

text \<open>A text that \<open>resetToInitialState\<close> clears: not blank, and not a number.\<close>

definition unparseable :: "string \<Rightarrow> bool" where
  "unparseable t = (trim t \<noteq> '''' \<and> isNaN (parseFloat t))"

text \<open>
  The panels that can arise: from the initial panel by putting a text in any input, by a
  recomputation, or by the clear button.
\<close>

inductive reachable :: "(real \<Rightarrow> string) \<Rightarrow> panel \<Rightarrow> bool" for numberToString where
  reach_init: "reachable numberToString initialPanel"
| reach_edit: "reachable numberToString s \<Longrightarrow> reachable numberToString (setValue k t s)"
| reach_recompute: "reachable numberToString s \<Longrightarrow> reachable numberToString (calculatePowerFactor numberToString s)"
| reach_clear: "reachable numberToString s \<Longrightarrow> reachable numberToString (clearFields s)"

section \<open>The debounced listener\<close>

text \<open>
  \<open>debounce(calculatePowerFactor, wait)\<close> is the listener of every \<open>input\<close> event. An event
  is a time in milliseconds with the input edited and its new text. The closure holds one
  timer: each event clears it and sets it to fire \<open>wait\<close> later, and the recomputation runs
  when it fires. A timer due at or before the time of an event has fired before the event.
  The state is the panel with the deadline of the pending timer, if any. (The older copy of
  the module in the same file also recomputes at once on every \<open>change\<close> event; the listener
  modelled here is the one both copies have.)
\<close>

type_synonym event = "nat \<times> fid \<times> string"




text \<open>The edits of a list of events alone, with no recomputation in between.\<close>

definition applyEdits :: "panel \<Rightarrow> event list \<Rightarrow> panel" where
  "applyEdits s es = foldl (\<lambda>s1 e. setValue (fst (snd e)) (snd (snd e)) s1) s es"


section \<open>Auxiliary notions for the proofs\<close>

definition defaultPlaceholder :: "fid \<Rightarrow> string" where
  "defaultPlaceholder k = (if k = Pf then ''Enter value (0-1)'' else ''Enter value'')"

text \<open>The status messages of the two validation loops and of the count check.\<close>

definition formatMessage :: "fid \<Rightarrow> string" where
  "formatMessage k = ''Invalid number entered for '' @ toUpperCase (idOf k) @ ''.''"

definition domainMessage :: "fid \<Rightarrow> string" where
  "domainMessage k =
     (if k = Pf then ''Power Factor (PF) must be between 0 and 1.''
      else ''Value for '' @ toUpperCase (idOf k) @ '' cannot be negative.'')"

definition lockedMessage :: "fid \<Rightarrow> string" where
  "lockedMessage k = ''Please provide a valid number for '' @ toUpperCase (idOf k) @ ''.''"

definition countMessage :: "nat \<Rightarrow> string" where
  "countMessage n = (if 2 < n then ''Please provide exactly two values.''
                     else if n = 1 then ''Please provide one more value.'' else '''')"

text \<open>The inputs holding a valid text, in the order of \<open>inputs\<close>.\<close>

definition validIds :: "panel \<Rightarrow> fid list" where
  "validIds s = filter (\<lambda>k. isValid (fieldCheck s k)) inputIds"

text \<open>A panel whose inputs and session are those of \<open>s0\<close> after a reset.\<close>

definition resetLike :: "panel \<Rightarrow> panel \<Rightarrow> bool" where
  "resetLike s0 t = (inputs t = inputs (resetToInitialState s0) \<and> \<not> initialCalculationDone t \<and> sourceFieldIds t = [])"

text \<open>The value a derived field prints: \<open>0\<close> in place of a magnitude under \<open>1e-9\<close>.\<close>

definition snap :: "jsnum \<Rightarrow> jsnum" where
  "snap v = (if js_lt (js_abs v) (Fin (1 / 10 ^ 9)) then Fin 0 else v)"

text \<open>A sample \<open>numberToString\<close>, for the concrete instances.\<close>

definition sampleToString :: "real \<Rightarrow> string" where
  "sampleToString x = ''1e+21''"

text \<open>
  The panel after \<open>300\<close> is typed as real power and \<open>500\<close> as apparent power into the
  initial panel, and one recomputation.
\<close>

definition lockedExample :: panel where
  "lockedExample =
     calculatePowerFactor sampleToString (setValue Kva ''500'' (setValue Kw ''300'' initialPanel))"

text \<open>Two panels that differ at most in the text of input \<open>c\<close>.\<close>

definition agreeOff :: "fid \<Rightarrow> panel \<Rightarrow> panel \<Rightarrow> bool" where
  "agreeOff c a b =
     (statusText a = statusText b \<and> initialCalculationDone a = initialCalculationDone b \<and>
      sourceFieldIds a = sourceFieldIds b \<and>
      (\<forall>k. el_readOnly (inputs a k) = el_readOnly (inputs b k) \<and>
           el_placeholder (inputs a k) = el_placeholder (inputs b k) \<and>
           (if k = c then True else el_value (inputs a k) = el_value (inputs b k))))"




section \<open>Evaluating texts\<close>

lemmas parse_defs =
  parseFloat_def unsignedLiteral_def isWhiteSpace_def isDigit_def startsWith_def
  digitsVal_def digitVal_def scale10_def exponentPart_def trim_def

lemma toUpperCase_idOf:
  "toUpperCase (idOf k) = (case k of Kw \<Rightarrow> ''KW'' | Kva \<Rightarrow> ''KVA'' | Kvar \<Rightarrow> ''KVAR'' | Pf \<Rightarrow> ''PF'')"
  by (cases k) (simp_all add: toUpperCase_def upperChar_def)

lemma trim_empty [simp]: "trim '''' = ''''"
  by (simp add: trim_def)

lemma toFixed_zero: "toFixed nts 3 (Fin 0) = ''0.000''"
proof -
  have "natDigits 0 = ''0''" by (simp add: natDigits.simps digitChar_def)
  then show ?thesis by (simp add: toFixed_def Let_def numeral_2_eq_2)
qed

section \<open>The resolver on finite values\<close>

lemma resolve_pair:
  "a \<noteq> b \<Longrightarrow> resolve [(a, x), (b, y)] =
     (case (a, b) of
        (Kw, Kva) \<Rightarrow> case_kva_kw [(a, x), (b, y)]
      | (Kva, Kw) \<Rightarrow> case_kva_kw [(a, x), (b, y)]
      | (Kw, Kvar) \<Rightarrow> case_kvar_kw [(a, x), (b, y)]
      | (Kvar, Kw) \<Rightarrow> case_kvar_kw [(a, x), (b, y)]
      | (Kw, Pf) \<Rightarrow> case_kw_pf [(a, x), (b, y)]
      | (Pf, Kw) \<Rightarrow> case_kw_pf [(a, x), (b, y)]
      | (Kva, Kvar) \<Rightarrow> case_kva_kvar [(a, x), (b, y)]
      | (Kvar, Kva) \<Rightarrow> case_kva_kvar [(a, x), (b, y)]
      | (Kva, Pf) \<Rightarrow> case_kva_pf [(a, x), (b, y)]
      | (Pf, Kva) \<Rightarrow> case_kva_pf [(a, x), (b, y)]
      | (Kvar, Pf) \<Rightarrow> case_kvar_pf [(a, x), (b, y)]
      | (Pf, Kvar) \<Rightarrow> case_kvar_pf [(a, x), (b, y)]
      | _ \<Rightarrow> Inl ''Invalid input pair detected.'')"
  by (cases a; cases b) (simp_all add: resolve_def sortKeys_def objectKeys_def)

lemma kva_kw_fin:
  "getProp ob Kw = Fin w \<Longrightarrow> getProp ob Kva = Fin s \<Longrightarrow>
   case_kva_kw ob =
     (if s = 0 \<and> w \<noteq> 0 then Inl ''kVA cannot be 0 if kW is non-zero.''
      else if \<bar>s\<bar> < \<bar>w\<bar> then Inl ''Absolute kW cannot be greater than absolute kVA.''
      else Inr \<lparr>res_kw = Fin w, res_kva = Fin s,
                res_kvar = Fin (if s * s < w * w then 0 else sqrt (s * s - w * w)),
                res_pf = Fin (if s = 0 then 1 else w / s)\<rparr>)"
  by (simp add: case_kva_kw_def js_eq_def js_gt_def js_sub_def noResults_def Let_def)


lemma kw_pf_fin:
  "getProp ob Kw = Fin w \<Longrightarrow> getProp ob Pf = Fin f \<Longrightarrow>
   case_kw_pf ob =
     (if f = 0 \<and> w \<noteq> 0 then Inl ''PF cannot be 0 if kW is non-zero.''
      else if f < 0 \<or> 1 < f then Inl ''PF must be between 0 and 1.''
      else Inr \<lparr>res_kw = Fin w, res_kva = Fin (if f = 0 then 0 else w / f),
                res_kvar = Fin (if (if f = 0 then 0 else w / f) * (if f = 0 then 0 else w / f) < w * w then 0
                                else sqrt ((if f = 0 then 0 else w / f) * (if f = 0 then 0 else w / f) - w * w)),
                res_pf = Fin f\<rparr>)"
  by (simp add: case_kw_pf_def js_eq_def js_gt_def js_sub_def noResults_def Let_def)



lemma sin_arccos_pos:
  assumes "0 \<le> f" "f < 1"
  shows "0 < sin (arccos f)"
proof -
  have "f\<^sup>2 < 1" using assms abs_square_less_1[of f] by simp
  then have "0 < sqrt (1 - f\<^sup>2)" by simp
  then show ?thesis using assms by (simp add: sin_arccos)
qed

lemma tan_arccos_pos: "0 < f \<Longrightarrow> f < 1 \<Longrightarrow> 0 < tan (arccos f)"
  using sin_arccos_pos[of f] by (simp add: tan_def cos_arccos)

lemma kvar_pf_fin:
  assumes "getProp ob Kvar = Fin q" "getProp ob Pf = Fin f"
  shows "case_kvar_pf ob =
     (if f < 0 \<or> 1 < f then Inl ''PF must be between 0 and 1.''
      else if f = 1 \<and> q \<noteq> 0 then Inl ''PF cannot be 1 if kVAR is non-zero.''
      else if f = 0 \<and> q = 0 then Inr \<lparr>res_kw = Fin 0, res_kva = Fin 0, res_kvar = Fin q, res_pf = Fin f\<rparr>
      else if f = 1 then Inl ''Cannot calculate from kVAR and PF=1. Please provide kW or kVA instead.''
      else if f = 0 then Inr \<lparr>res_kw = Fin 0, res_kva = Fin \<bar>q\<bar>, res_kvar = Fin q, res_pf = Fin f\<rparr>
      else Inr \<lparr>res_kw = Fin (if f < 1 / 10 ^ 9 then 0 else q / tan (arccos f)),
                res_kva = Fin (if 1 - f < 1 / 10 ^ 9 then \<bar>if f < 1 / 10 ^ 9 then 0 else q / tan (arccos f)\<bar>
                               else q / sin (arccos f)),
                res_kvar = Fin q, res_pf = Fin f\<rparr>)"
proof (cases "0 < f \<and> f < 1")
  case True
  then have "sin (arccos f) \<noteq> 0" "tan (arccos f) \<noteq> 0" "cos (arccos f) \<noteq> 0"
    using sin_arccos_pos[of f] tan_arccos_pos[of f] by (simp_all add: cos_arccos)
  with True show ?thesis using assms
    by (simp add: case_kvar_pf_def js_eq_def js_gt_def js_sub_def noResults_def Let_def)
next
  case False
  then show ?thesis using assms
    by (auto simp add: case_kvar_pf_def js_eq_def js_gt_def js_sub_def noResults_def Let_def)
qed




section \<open>Panels: resets and the two loops\<close>

lemma fid_cases4: "k = Kw \<or> k = Kva \<or> k = Kvar \<or> k = Pf"
  by (cases k) simp_all

lemma inputs_updInput [simp]: "inputs (updInput k f s) j = (if j = k then f (inputs s k) else inputs s j)"
  by (simp add: updInput_def)

lemma session_updInput [simp]:
  "statusText (updInput k f s) = statusText s"
  "initialCalculationDone (updInput k f s) = initialCalculationDone s"
  "sourceFieldIds (updInput k f s) = sourceFieldIds s"
  by (simp_all add: updInput_def)

lemma foldl_updInput_session [simp]:
  "statusText (foldl (\<lambda>s1 k. updInput k (f k) s1) s ks) = statusText s"
  "initialCalculationDone (foldl (\<lambda>s1 k. updInput k (f k) s1) s ks) = initialCalculationDone s"
  "sourceFieldIds (foldl (\<lambda>s1 k. updInput k (f k) s1) s ks) = sourceFieldIds s"
  by (induction ks arbitrary: s) simp_all

lemma foldl_updInput_inputs:
  assumes "\<And>k e. f k (f k e) = f k e"
  shows "inputs (foldl (\<lambda>s1 k. updInput k (f k) s1) s ks) j =
           (if j \<in> set ks then f j (inputs s j) else inputs s j)"
  by (induction ks arbitrary: s) (auto simp: assms)

lemma setReadOnly_False [simp]:
  "setReadOnly k False e = (if el_value e = '''' then resetPlaceholder k (e\<lparr>el_readOnly := False\<rparr>) else e\<lparr>el_readOnly := False\<rparr>)"
  by (cases e) (simp add: setReadOnly_def Let_def)

lemma setReadOnly_True [simp]:
  "setReadOnly k True e = (if el_value e = '''' then e\<lparr>el_readOnly := True\<rparr>
                           else e\<lparr>el_readOnly := True, el_placeholder := ''Calculated''\<rparr>)"
  by (cases e) (simp add: setReadOnly_def Let_def)

lemma resetPlaceholder_eq [simp]: "resetPlaceholder k e = e\<lparr>el_placeholder := defaultPlaceholder k\<rparr>"
  by (cases k) (simp_all add: resetPlaceholder_def defaultPlaceholder_def)

lemma resetInput_eq:
  "resetInput k e = \<lparr>el_value = (if el_readOnly e \<or> unparseable (el_value e) then '''' else el_value e),
                     el_readOnly = False, el_placeholder = defaultPlaceholder k\<rparr>"
  by (cases e) (simp add: resetInput_def unparseable_def Let_def)

lemma unparseable_empty [simp]: "\<not> unparseable ''''"
  by (simp add: unparseable_def trim_def)

lemma resetInput_idem: "resetInput k (resetInput k e) = resetInput k e"
  by (simp add: resetInput_eq)

lemma reset_session [simp]:
  "statusText (resetToInitialState s) = statusText s"
  "initialCalculationDone (resetToInitialState s) = False"
  "sourceFieldIds (resetToInitialState s) = []"
  by (simp_all add: resetToInitialState_def)

lemma reset_inputs [simp]: "inputs (resetToInitialState s) k = resetInput k (inputs s k)"
  using fid_cases4[of k]
  by (auto simp add: resetToInitialState_def foldl_updInput_inputs[where f=resetInput, OF resetInput_idem] inputIds_def)

lemma panel_eqI:
  "inputs a = inputs b \<Longrightarrow> statusText a = statusText b \<Longrightarrow>
   initialCalculationDone a = initialCalculationDone b \<Longrightarrow> sourceFieldIds a = sourceFieldIds b \<Longrightarrow> a = (b::panel)"
  by (cases a; cases b) simp

lemma reset_status: "resetToInitialState (s\<lparr>statusText := m\<rparr>) = (resetToInitialState s)\<lparr>statusText := m\<rparr>"
  by (rule panel_eqI) (auto simp: fun_eq_iff)

lemma reset_idem: "resetToInitialState (resetToInitialState s) = resetToInitialState s"
  by (rule panel_eqI) (auto simp: fun_eq_iff resetInput_idem)

subsection \<open>The validation loops\<close>

lemma not_inDomain_iff:
  "\<not> isNaN v \<Longrightarrow> (\<not> inDomain k v) =
     ((k = Kw \<or> k = Kva \<or> k = Kvar) \<and> js_lt v (Fin 0) \<or> k = Pf \<and> (js_lt v (Fin 0) \<or> js_gt v (Fin 1)))"
  by (cases k) (auto simp: inDomain_def)

lemma initialStep_validate:
  "initialStep (s, ob, n, h) k =
     (case fieldCheck s k of
        Empty \<Rightarrow> (s, ob, n, h)
      | InvalidFormat j \<Rightarrow> (s\<lparr>statusText := formatMessage j\<rparr>, ob, n, True)
      | OutOfDomain j \<Rightarrow> (s\<lparr>statusText := domainMessage j\<rparr>, ob, n, True)
      | Valid j v \<Rightarrow> (s, setProp j v ob, n + 1, h))"
proof (cases "isNaN (parseFloat (el_value (inputs s k)))")
  case True
  then show ?thesis
    by (simp add: initialStep_def fieldCheck_def validate_def formatMessage_def Let_def)
next
  case False
  then show ?thesis
    using not_inDomain_iff[of "parseFloat (el_value (inputs s k))" k]
    by (cases k) (auto simp add: initialStep_def fieldCheck_def validate_def domainMessage_def Let_def)
qed

lemma recalcStep_validate:
  "recalcStep (s, p, ob) k =
     (case fieldCheck s k of
        Empty \<Rightarrow> (resetToInitialState (s\<lparr>statusText := lockedMessage k\<rparr>), False, ob)
      | InvalidFormat j \<Rightarrow> (resetToInitialState (s\<lparr>statusText := lockedMessage j\<rparr>), False, ob)
      | OutOfDomain j \<Rightarrow> (resetToInitialState (s\<lparr>statusText := domainMessage j\<rparr>), False, ob)
      | Valid j v \<Rightarrow> (if p then (s, True, setProp j v ob) else (resetToInitialState s, False, ob)))"
proof (cases "trim (el_value (inputs s k)) = '''' \<or> isNaN (parseFloat (el_value (inputs s k)))")
  case True
  then show ?thesis
    by (auto simp add: recalcStep_def fieldCheck_def validate_def lockedMessage_def Let_def)
next
  case False
  then show ?thesis
    using not_inDomain_iff[of "parseFloat (el_value (inputs s k))" k]
    by (cases k) (auto simp add: recalcStep_def fieldCheck_def validate_def domainMessage_def Let_def)
qed

lemma fieldCheck_Valid: "fieldCheck s k = Valid j v \<Longrightarrow> j = k \<and> v = parseFloat (el_value (inputs s k))"
  by (auto simp: fieldCheck_def validate_def split: if_splits)

lemma fieldCheck_status [simp]: "fieldCheck (s\<lparr>statusText := m\<rparr>) k = fieldCheck s k"
  by (simp add: fieldCheck_def)

lemma setProp_append: "k \<notin> fst ` set ob \<Longrightarrow> setProp k v ob = ob @ [(k, v)]"
  by (induction ob) auto

lemma sourceValues_gen:
  "distinct ks \<Longrightarrow> set ks \<inter> fst ` set ob = {} \<Longrightarrow>
   foldl (\<lambda>ob k. setProp k (g k) ob) ob ks = ob @ map (\<lambda>k. (k, g k)) ks"
proof (induction ks arbitrary: ob)
  case Nil
  then show ?case by simp
next
  case (Cons k ks)
  have "setProp k (g k) ob = ob @ [(k, g k)]" using Cons.prems by (intro setProp_append) auto
  moreover have "set ks \<inter> fst ` set (ob @ [(k, g k)]) = {}" using Cons.prems by auto
  ultimately show ?case using Cons.IH[of "ob @ [(k, g k)]"] Cons.prems by simp
qed

lemma sourceValuesOf_distinct:
  "distinct ks \<Longrightarrow> sourceValuesOf s ks = map (\<lambda>k. (k, parseFloat (el_value (inputs s k)))) ks"
  using sourceValues_gen[of ks "[]" "\<lambda>k. parseFloat (el_value (inputs s k))"]
  by (simp add: sourceValuesOf_def)

lemma initial_fold_gen:
  "\<exists>m. foldl initialStep (s\<lparr>statusText := m0\<rparr>, ob, n, h) ks =
         (s\<lparr>statusText := m\<rparr>,
          foldl (\<lambda>ob k. setProp k (parseFloat (el_value (inputs s k))) ob) ob (filter (\<lambda>k. isValid (fieldCheck s k)) ks),
          n + length (filter (\<lambda>k. isValid (fieldCheck s k)) ks),
          h \<or> (\<exists>k\<in>set ks. isRejection (fieldCheck s k))) \<and>
        ((\<forall>k\<in>set ks. \<not> isRejection (fieldCheck s k)) \<longrightarrow> m = m0)"
proof (induction ks arbitrary: m0 ob n h)
  case Nil
  then show ?case by simp
next
  case (Cons k ks)
  show ?case
  proof (cases "fieldCheck s k")
    case Empty
    then show ?thesis using Cons.IH[where ?m0.0=m0 and ob=ob and n=n and h=h]
      by (simp add: initialStep_validate)
  next
    case (InvalidFormat j)
    then show ?thesis using Cons.IH[where ?m0.0="formatMessage j" and ob=ob and n=n and h=True]
      by (auto simp add: initialStep_validate)
  next
    case (OutOfDomain j)
    then show ?thesis using Cons.IH[where ?m0.0="domainMessage j" and ob=ob and n=n and h=True]
      by (auto simp add: initialStep_validate)
  next
    case (Valid j v)
    then have "j = k" "v = parseFloat (el_value (inputs s k))"
      using fieldCheck_Valid by blast+
    then show ?thesis using Valid Cons.IH[where ?m0.0=m0 and ob="setProp k v ob" and n="n + 1" and h=h]
      by (auto simp add: initialStep_validate)
  qed
qed

lemma distinct_inputIds [simp]: "distinct inputIds"
  by (simp add: inputIds_def)

lemma distinct_validIds [simp]: "distinct (validIds s)"
  by (simp add: validIds_def)

lemma initial_fold:
  "\<exists>m. foldl initialStep (s\<lparr>statusText := m0\<rparr>, [], 0, False) inputIds =
         (s\<lparr>statusText := m\<rparr>, sourceValuesOf s (validIds s), length (validIds s),
          \<exists>k\<in>set inputIds. isRejection (fieldCheck s k)) \<and>
        ((\<forall>k\<in>set inputIds. \<not> isRejection (fieldCheck s k)) \<longrightarrow> m = m0)"
  using initial_fold_gen[where s=s and ?m0.0=m0 and ob="[]" and n=0 and h=False and ks=inputIds]
  by (simp add: sourceValuesOf_def validIds_def)

lemma recalc_fold_ok:
  "\<forall>k\<in>set ks. isValid (fieldCheck s k) \<Longrightarrow>
   foldl recalcStep (s, True, ob) ks =
     (s, True, foldl (\<lambda>ob k. setProp k (parseFloat (el_value (inputs s k))) ob) ob ks)"
proof (induction ks arbitrary: ob)
  case Nil
  then show ?case by simp
next
  case (Cons k ks)
  then obtain j v where "fieldCheck s k = Valid j v" by (cases "fieldCheck s k") auto
  moreover from this have "j = k" "v = parseFloat (el_value (inputs s k))"
    using fieldCheck_Valid by blast+
  ultimately show ?case using Cons by (simp add: recalcStep_validate)
qed

lemma resetLike_reset: "resetLike s0 t \<Longrightarrow> resetLike s0 (resetToInitialState (t\<lparr>statusText := m\<rparr>))"
  by (auto simp: resetLike_def fun_eq_iff resetInput_idem)

lemma resetLike_reset': "resetLike s0 t \<Longrightarrow> resetLike s0 (resetToInitialState t)"
  by (auto simp: resetLike_def fun_eq_iff resetInput_idem)

lemma resetLike_start: "resetLike s (resetToInitialState (s\<lparr>statusText := m\<rparr>))"
  by (auto simp: resetLike_def fun_eq_iff)

lemma recalc_fold_after_failure:
  "resetLike s0 t \<Longrightarrow> \<exists>t' ob'. foldl recalcStep (t, False, ob) ks = (t', False, ob') \<and> resetLike s0 t'"
proof (induction ks arbitrary: t ob)
  case Nil
  then show ?case by simp
next
  case (Cons k ks)
  obtain t1 where step: "recalcStep (t, False, ob) k = (t1, False, ob)" and rl: "resetLike s0 t1"
    using Cons.prems
    by (cases "fieldCheck t k") (auto simp: recalcStep_validate resetLike_reset resetLike_reset')
  show ?case using Cons.IH[OF rl, of ob] step by simp
qed

lemma recalc_fold_failed:
  "\<not> (\<forall>k\<in>set ks. isValid (fieldCheck s k)) \<Longrightarrow>
   \<exists>t' ob'. foldl recalcStep (s, True, ob) ks = (t', False, ob') \<and> resetLike s t'"
proof (induction ks arbitrary: ob)
  case Nil
  then show ?case by simp
next
  case (Cons k ks)
  show ?case
  proof (cases "isValid (fieldCheck s k)")
    case True
    then obtain j v where "fieldCheck s k = Valid j v" by (cases "fieldCheck s k") auto
    then show ?thesis using Cons True by (simp add: recalcStep_validate)
  next
    case False
    then obtain t1 where step: "recalcStep (s, True, ob) k = (t1, False, ob)" and rl: "resetLike s t1"
      by (cases "fieldCheck s k") (auto simp: recalcStep_validate resetLike_start)
    show ?thesis using recalc_fold_after_failure[OF rl, of ob ks] step by simp
  qed
qed

subsection \<open>The common part\<close>

lemma showResult_eq:
  "showResult nts k v e =
     (if isNaN v then \<lparr>el_value = '''', el_readOnly = False, el_placeholder = defaultPlaceholder k\<rparr>
      else \<lparr>el_value = toFixed nts 3 (snap v), el_readOnly = True,
             el_placeholder = (if toFixed nts 3 (snap v) = '''' then el_placeholder e else ''Calculated'')\<rparr>)"
  by (cases e) (simp add: showResult_def snap_def Let_def)

lemma showResult_idem: "showResult nts k v (showResult nts k v e) = showResult nts k v e"
  by (simp add: showResult_eq)

lemma setReadOnly_False_idem: "setReadOnly k False (setReadOnly k False e) = setReadOnly k False e"
  by simp

lemma performCalculation_Inl:
  "resolve cvi = Inl m \<Longrightarrow>
   performCalculation nts s cvi ts = resetToInitialState (s\<lparr>statusText := ''Calculation Error: '' @ m\<rparr>)"
  by (simp add: performCalculation_def)

lemma performCalculation_Inr:
  assumes "resolve cvi = Inr res"
  shows "inputs (performCalculation nts s cvi ts) k =
           (let e1 = (if k \<in> set ts then showResult nts k (resultOf res k) (inputs s k) else inputs s k)
            in if k \<in> set (sourceFieldIds s) then setReadOnly k False e1 else e1)"
    and "statusText (performCalculation nts s cvi ts) = statusText s"
    and "initialCalculationDone (performCalculation nts s cvi ts)"
    and "sourceFieldIds (performCalculation nts s cvi ts) = sourceFieldIds s"
proof -
  let ?s1 = "foldl (\<lambda>s' t. updInput t (showResult nts t (resultOf res t)) s') s ts"
  let ?s2 = "foldl (\<lambda>s' i. updInput i (setReadOnly i False) s') ?s1 (sourceFieldIds ?s1)"
  have pc: "performCalculation nts s cvi ts =
              (if \<not> initialCalculationDone ?s2 then ?s2\<lparr>initialCalculationDone := True\<rparr> else ?s2)"
    using assms by (simp add: performCalculation_def Let_def)
  have i1: "inputs ?s1 k = (if k \<in> set ts then showResult nts k (resultOf res k) (inputs s k) else inputs s k)"
    by (rule foldl_updInput_inputs[where f="\<lambda>t. showResult nts t (resultOf res t)"]) (rule showResult_idem)
  have i2: "inputs ?s2 k = (if k \<in> set (sourceFieldIds ?s1) then setReadOnly k False (inputs ?s1 k) else inputs ?s1 k)"
    by (rule foldl_updInput_inputs[where f="\<lambda>i. setReadOnly i False"]) (rule setReadOnly_False_idem)
  show "inputs (performCalculation nts s cvi ts) k =
           (let e1 = (if k \<in> set ts then showResult nts k (resultOf res k) (inputs s k) else inputs s k)
            in if k \<in> set (sourceFieldIds s) then setReadOnly k False e1 else e1)"
    unfolding pc Let_def using i1 i2 by (simp del: setReadOnly_False)
  show "statusText (performCalculation nts s cvi ts) = statusText s" unfolding pc by simp
  show "initialCalculationDone (performCalculation nts s cvi ts)" unfolding pc by simp
  show "sourceFieldIds (performCalculation nts s cvi ts) = sourceFieldIds s" unfolding pc by simp
qed

subsection \<open>\<open>calculatePowerFactor\<close> in each mode\<close>

lemma fieldCheck_clearStatus [simp]: "fieldCheck (clearStatus s) k = fieldCheck s k"
  by (simp add: fieldCheck_def clearStatus_def)

lemma clearStatus_simps [simp]:
  "inputs (clearStatus s) = inputs s"
  "statusText (clearStatus s) = ''''"
  "initialCalculationDone (clearStatus s) = initialCalculationDone s"
  "sourceFieldIds (clearStatus s) = sourceFieldIds s"
  by (simp_all add: clearStatus_def)

lemma sourceValuesOf_clearStatus [simp]: "sourceValuesOf (clearStatus s) ks = sourceValuesOf s ks"
  by (simp add: sourceValuesOf_def)

lemma calc_locked_ok:
  assumes "initialCalculationDone s" "\<forall>k\<in>set (sourceFieldIds s). isValid (fieldCheck s k)"
  shows "calculatePowerFactor nts s =
           performCalculation nts (clearStatus s) (sourceValuesOf s (sourceFieldIds s)) (targetsOf (sourceFieldIds s))"
  using assms recalc_fold_ok[of "sourceFieldIds s" "clearStatus s" "[]"]
  by (simp add: calculatePowerFactor_def Let_def sourceValuesOf_def)

lemma calc_locked_failed:
  assumes "initialCalculationDone s" "\<not> (\<forall>k\<in>set (sourceFieldIds s). isValid (fieldCheck s k))"
  shows "resetLike s (calculatePowerFactor nts s)"
proof -
  obtain t' ob' where f: "foldl recalcStep (clearStatus s, True, []) (sourceFieldIds s) = (t', False, ob')"
    and rl: "resetLike (clearStatus s) t'"
    using recalc_fold_failed[of "sourceFieldIds s" "clearStatus s" "[]"] assms(2) by auto
  have "calculatePowerFactor nts s = t'" using assms(1) f by (simp add: calculatePowerFactor_def Let_def)
  then show ?thesis using rl by (simp add: resetLike_def fun_eq_iff)
qed

lemma calc_unlocked:
  assumes "\<not> initialCalculationDone s"
  shows "\<exists>m. calculatePowerFactor nts s =
     (if \<exists>k\<in>set inputIds. isRejection (fieldCheck s k) then resetToInitialState (s\<lparr>statusText := m\<rparr>)
      else if length (validIds s) \<noteq> 2 then resetToInitialState (s\<lparr>statusText := countMessage (length (validIds s))\<rparr>)
      else performCalculation nts (s\<lparr>statusText := '''', sourceFieldIds := validIds s\<rparr>)
             (sourceValuesOf s (validIds s)) (targetsOf (validIds s)))"
proof -
  obtain m where f: "foldl initialStep (s\<lparr>statusText := ''''\<rparr>, [], 0, False) inputIds =
         (s\<lparr>statusText := m\<rparr>, sourceValuesOf s (validIds s), length (validIds s),
          \<exists>k\<in>set inputIds. isRejection (fieldCheck s k))"
    and m: "(\<forall>k\<in>set inputIds. \<not> isRejection (fieldCheck s k)) \<longrightarrow> m = ''''"
    using initial_fold[where s=s and ?m0.0="''''"] by blast
  have keys: "objectKeys (sourceValuesOf s (validIds s)) = validIds s"
    by (simp add: sourceValuesOf_distinct objectKeys_def comp_def)
  show ?thesis
    apply (rule exI[of _ m])
    using assms f m keys
    by (auto simp add: calculatePowerFactor_def Let_def clearStatus_def countMessage_def)
qed

section \<open>The pair of reactive power and power factor; the domain of the results\<close>

text \<open>
  Claim C3, as amended. For the pair of reactive power \<open>Q\<close> and power factor \<open>F\<close> in
  \<open>[0, 1]\<close>: \<open>F = 1\<close> with \<open>Q \<noteq> 0\<close> is rejected as impossible; \<open>F = 0\<close> with \<open>Q = 0\<close> gives
  \<open>P = 0\<close>, \<open>S = 0\<close>; \<open>F = 1\<close> with \<open>Q = 0\<close> is rejected, asking for \<open>P\<close> or \<open>S\<close>; \<open>F = 0\<close>
  with \<open>Q \<noteq> 0\<close> gives \<open>P = 0\<close>, \<open>S = |Q|\<close>; and for every other \<open>F\<close> the results are
  \<open>P = Q / tan (acos F)\<close>, except that \<open>P = 0\<close> when \<open>F < 1e-9\<close>, and \<open>S = Q / sin (acos F)\<close>,
  except that \<open>S = |P|\<close> when \<open>1 - F < 1e-9\<close>.
\<close>

theorem kvar_pf_formula:
  fixes q f :: real
  assumes "0 \<le> f" "f \<le> 1"
  shows "resolve [(Kvar, Fin q), (Pf, Fin f)] =
     (if f = 1 \<and> q \<noteq> 0 then Inl ''PF cannot be 1 if kVAR is non-zero.''
      else if f = 0 \<and> q = 0 then Inr \<lparr>res_kw = Fin 0, res_kva = Fin 0, res_kvar = Fin q, res_pf = Fin f\<rparr>
      else if f = 1 then Inl ''Cannot calculate from kVAR and PF=1. Please provide kW or kVA instead.''
      else if f = 0 then Inr \<lparr>res_kw = Fin 0, res_kva = Fin \<bar>q\<bar>, res_kvar = Fin q, res_pf = Fin f\<rparr>
      else Inr \<lparr>res_kw = Fin (if f < 1 / 10 ^ 9 then 0 else q / tan (arccos f)),
                res_kva = Fin (if 1 - f < 1 / 10 ^ 9 then \<bar>q / tan (arccos f)\<bar> else q / sin (arccos f)),
                res_kvar = Fin q, res_pf = Fin f\<rparr>)"
  using assms by (simp add: resolve_pair kvar_pf_fin[of _ q f] getProp_def)

theorem kvar_pf_formula_witness:
  "resolve [(Kvar, Fin 100), (Pf, Fin (1 / 2))] =
     Inr \<lparr>res_kw = Fin (100 / tan (arccos (1 / 2))), res_kva = Fin (100 / sin (arccos (1 / 2))),
          res_kvar = Fin 100, res_pf = Fin (1 / 2)\<rparr> \<and>
   resolve [(Kvar, Fin 100), (Pf, Fin 1)] = Inl ''PF cannot be 1 if kVAR is non-zero.''"
  using kvar_pf_formula[of "1 / 2" 100] kvar_pf_formula[of 1 100] by simp

text \<open>
  The claim as first stated has no exception for \<open>F\<close> near \<open>0\<close> or \<open>1\<close>. At \<open>Q = 1\<close>,
  \<open>F = 1e-10\<close> the code gives \<open>P = 0\<close>, which is not \<open>Q / tan (acos F)\<close>.
\<close>

theorem kvar_pf_small_counterexample:
  "resolve [(Kvar, Fin 1), (Pf, Fin (1 / 10 ^ 10))] =
     Inr \<lparr>res_kw = Fin 0, res_kva = Fin (1 / sin (arccos (1 / 10 ^ 10))),
          res_kvar = Fin 1, res_pf = Fin (1 / 10 ^ 10)\<rparr> \<and>
   Fin (1 / tan (arccos (1 / 10 ^ 10))) \<noteq> Fin 0"
proof -
  have "0 < tan (arccos (1 / 10 ^ 10 :: real))" by (rule tan_arccos_pos) simp_all
  then have "1 / tan (arccos (1 / 10 ^ 10 :: real)) \<noteq> 0" by simp
  then show ?thesis by (simp add: resolve_pair kvar_pf_fin[of _ 1 "1 / 10 ^ 10"] getProp_def)
qed










lemma sqrt_160000: "sqrt (160000 :: real) = 400"
  using real_sqrt_abs[of 400] by simp

lemma resolve_300_500:
  "resolve [(Kw, Fin 300), (Kva, Fin 500)] =
     Inr \<lparr>res_kw = Fin 300, res_kva = Fin 500, res_kvar = Fin 400, res_pf = Fin (3 / 5)\<rparr>"
  by (simp add: resolve_pair kva_kw_fin getProp_def sqrt_160000)



section \<open>Recomputation of a panel\<close>

lemma inputs_setValue [simp]:
  "inputs (setValue k t s) j = (if j = k then (inputs s k)\<lparr>el_value := t\<rparr> else inputs s j)"
  by (simp add: setValue_def)

lemma session_setValue [simp]:
  "statusText (setValue k t s) = statusText s"
  "initialCalculationDone (setValue k t s) = initialCalculationDone s"
  "sourceFieldIds (setValue k t s) = sourceFieldIds s"
  by (simp_all add: setValue_def)

lemma initialPanel_simps [simp]:
  "inputs initialPanel k = \<lparr>el_value = '''', el_readOnly = False, el_placeholder = defaultPlaceholder k\<rparr>"
  "statusText initialPanel = ''''"
  "\<not> initialCalculationDone initialPanel"
  "sourceFieldIds initialPanel = []"
  by (simp_all add: initialPanel_def defaultPlaceholder_def)

lemma validate_empty [simp]: "validate k '''' = Empty"
  by (simp add: validate_def)

lemma unparseable_iff: "unparseable t = (validate k t = InvalidFormat k)"
  by (auto simp: unparseable_def validate_def)

lemma targetsOf_mem: "k \<in> set (targetsOf ids) = (k \<notin> set ids)"
  using fid_cases4[of k] by (auto simp: targetsOf_def inputIds_def)

lemma calc_unlocked_two:
  assumes "\<not> initialCalculationDone s" "validIds s = [a, b]"
    "\<forall>k\<in>set inputIds. \<not> isRejection (fieldCheck s k)"
  shows "calculatePowerFactor nts s =
           performCalculation nts (s\<lparr>statusText := '''', sourceFieldIds := [a, b]\<rparr>)
             [(a, parseFloat (el_value (inputs s a))), (b, parseFloat (el_value (inputs s b)))] (targetsOf [a, b])"
proof -
  have d: "distinct [a, b]" using distinct_validIds[of s] assms(2) by simp
  have sv: "sourceValuesOf s [a, b] = [(a, parseFloat (el_value (inputs s a))), (b, parseFloat (el_value (inputs s b)))]"
    using sourceValuesOf_distinct[OF d, of s] by simp
  show ?thesis using calc_unlocked[OF assms(1), of nts] assms(2,3) sv by auto
qed





lemma calc_success:
  assumes "initialCalculationDone (calculatePowerFactor nts s)"
  shows "\<exists>s1 res.
           calculatePowerFactor nts s =
             performCalculation nts s1 (sourceValuesOf s (sourceFieldIds s1)) (targetsOf (sourceFieldIds s1)) \<and>
           resolve (sourceValuesOf s (sourceFieldIds s1)) = Inr res \<and>
           inputs s1 = inputs s \<and> statusText s1 = '''' \<and>
           (if initialCalculationDone s
            then sourceFieldIds s1 = sourceFieldIds s \<and> (\<forall>k\<in>set (sourceFieldIds s). isValid (fieldCheck s k))
            else sourceFieldIds s1 = validIds s \<and> length (validIds s) = 2 \<and>
                 (\<forall>k\<in>set inputIds. \<not> isRejection (fieldCheck s k)))"
proof (cases "initialCalculationDone s")
  case True
  have allv: "\<forall>k\<in>set (sourceFieldIds s). isValid (fieldCheck s k)"
  proof (rule ccontr)
    assume "\<not> ?thesis"
    then have "resetLike s (calculatePowerFactor nts s)" using calc_locked_failed[OF True] by blast
    then show False using assms by (simp add: resetLike_def)
  qed
  have c: "calculatePowerFactor nts s =
      performCalculation nts (clearStatus s) (sourceValuesOf s (sourceFieldIds s)) (targetsOf (sourceFieldIds s))"
    using calc_locked_ok[OF True allv] .
  obtain res where r: "resolve (sourceValuesOf s (sourceFieldIds s)) = Inr res"
  proof (cases "resolve (sourceValuesOf s (sourceFieldIds s))")
    case (Inl m)
    then show ?thesis using assms c by (simp add: performCalculation_Inl)
  next
    case (Inr res)
    then show ?thesis using that by blast
  qed
  show ?thesis
    by (rule exI[of _ "clearStatus s"], rule exI[of _ res]) (use True allv c r in simp)
next
  case False
  obtain m where c: "calculatePowerFactor nts s =
     (if \<exists>k\<in>set inputIds. isRejection (fieldCheck s k) then resetToInitialState (s\<lparr>statusText := m\<rparr>)
      else if length (validIds s) \<noteq> 2 then resetToInitialState (s\<lparr>statusText := countMessage (length (validIds s))\<rparr>)
      else performCalculation nts (s\<lparr>statusText := '''', sourceFieldIds := validIds s\<rparr>)
             (sourceValuesOf s (validIds s)) (targetsOf (validIds s)))"
    using calc_unlocked[OF False] by blast
  have nr: "\<forall>k\<in>set inputIds. \<not> isRejection (fieldCheck s k)"
    using assms c by (auto split: if_splits)
  have two: "length (validIds s) = 2"
    using assms c nr by (auto split: if_splits)
  have c2: "calculatePowerFactor nts s =
      performCalculation nts (s\<lparr>statusText := '''', sourceFieldIds := validIds s\<rparr>)
             (sourceValuesOf s (validIds s)) (targetsOf (validIds s))"
    using c nr two by auto
  obtain res where r: "resolve (sourceValuesOf s (validIds s)) = Inr res"
  proof (cases "resolve (sourceValuesOf s (validIds s))")
    case (Inl m)
    then show ?thesis using assms c2 by (simp add: performCalculation_Inl)
  next
    case (Inr res)
    then show ?thesis using that by blast
  qed
  show ?thesis
    by (rule exI[of _ "s\<lparr>statusText := '''', sourceFieldIds := validIds s\<rparr>"], rule exI[of _ res])
       (use False nr two c2 r in simp)
qed

lemma snap_small: "\<bar>x\<bar> < 1 / 10 ^ 9 \<Longrightarrow> snap (Fin x) = Fin 0"
  by (simp add: snap_def)

text \<open>
  Claim C8. After any successful recomputation, every derived field whose computed value
  has a magnitude under \<open>1e-9\<close> shows \<open>0.000\<close>, the print of exactly \<open>0\<close>, and is read-only.
  The computed values are those the resolver gives for the values of the two source fields.
\<close>

theorem tiny_results_show_zero:
  assumes "initialCalculationDone (calculatePowerFactor nts s)"
  shows "\<exists>res. resolve (sourceValuesOf s (sourceFieldIds (calculatePowerFactor nts s))) = Inr res \<and>
           (\<forall>k x. k \<notin> set (sourceFieldIds (calculatePowerFactor nts s)) \<and>
                   resultOf res k = Fin x \<and> \<bar>x\<bar> < 1 / 10 ^ 9 \<longrightarrow>
                   el_value (inputs (calculatePowerFactor nts s) k) = ''0.000'' \<and>
                   el_readOnly (inputs (calculatePowerFactor nts s) k))"
proof -
  obtain s1 res where c: "calculatePowerFactor nts s =
             performCalculation nts s1 (sourceValuesOf s (sourceFieldIds s1)) (targetsOf (sourceFieldIds s1))"
    and r: "resolve (sourceValuesOf s (sourceFieldIds s1)) = Inr res"
    using calc_success[OF assms] by blast
  have ids: "sourceFieldIds (calculatePowerFactor nts s) = sourceFieldIds s1"
    unfolding c by (rule performCalculation_Inr(4)[OF r])
  have "el_value (inputs (calculatePowerFactor nts s) k) = ''0.000'' \<and>
        el_readOnly (inputs (calculatePowerFactor nts s) k)"
    if "k \<notin> set (sourceFieldIds s1)" "resultOf res k = Fin x" "\<bar>x\<bar> < 1 / 10 ^ 9" for k x
    unfolding c using that
    by (simp add: performCalculation_Inr(1)[OF r] targetsOf_mem showResult_eq snap_small toFixed_zero)
  then show ?thesis using r ids by auto
qed

lemma calc_unlocked_two_ok:
  assumes "\<not> initialCalculationDone s" "validIds s = [a, b]"
    "\<forall>k\<in>set inputIds. \<not> isRejection (fieldCheck s k)"
    "resolve [(a, parseFloat (el_value (inputs s a))), (b, parseFloat (el_value (inputs s b)))] = Inr res"
  shows "initialCalculationDone (calculatePowerFactor nts s)"
    and "sourceFieldIds (calculatePowerFactor nts s) = [a, b]"
    and "statusText (calculatePowerFactor nts s) = ''''"
    and "inputs (calculatePowerFactor nts s) k =
           (if k = a \<or> k = b then setReadOnly k False (inputs s k)
            else showResult nts k (resultOf res k) (inputs s k))"
  unfolding calc_unlocked_two[OF assms(1,2,3)]
  by (auto simp add: performCalculation_Inr[OF assms(4)] targetsOf_mem simp del: setReadOnly_False)

lemma validate_500: "validate Kw ''500'' = Valid Kw (Fin 500)"
  by (simp add: validate_def inDomain_def parse_defs js_gt_def) 

lemma validate_1: "validate k ''1'' = Valid k (Fin 1)"
  by (simp add: validate_def inDomain_def parse_defs js_gt_def)

lemma resolve_500_1:
  "resolve [(Kw, Fin 500), (Pf, Fin 1)] =
     Inr \<lparr>res_kw = Fin 500, res_kva = Fin 500, res_kvar = Fin 0, res_pf = Fin 1\<rparr>"
  by (simp add: resolve_pair kw_pf_fin getProp_def)

text \<open>The instance \<open>P = 500\<close>, \<open>F = 1\<close>: the reactive power shows \<open>0.000\<close>.\<close>

theorem tiny_results_show_zero_witness:
  "initialCalculationDone (calculatePowerFactor sampleToString (setValue Pf ''1'' (setValue Kw ''500'' initialPanel))) \<and>
   sourceFieldIds (calculatePowerFactor sampleToString (setValue Pf ''1'' (setValue Kw ''500'' initialPanel))) = [Kw, Pf] \<and>
   resolve [(Kw, Fin 500), (Pf, Fin 1)] =
     Inr \<lparr>res_kw = Fin 500, res_kva = Fin 500, res_kvar = Fin 0, res_pf = Fin 1\<rparr> \<and>
   el_value (inputs (calculatePowerFactor sampleToString (setValue Pf ''1'' (setValue Kw ''500'' initialPanel))) Kvar) = ''0.000''"
proof -
  let ?p = "setValue Pf ''1'' (setValue Kw ''500'' initialPanel)"
  have u: "\<not> initialCalculationDone ?p" by simp
  have fc: "fieldCheck ?p Kw = Valid Kw (Fin 500)" "fieldCheck ?p Kva = Empty"
    "fieldCheck ?p Kvar = Empty" "fieldCheck ?p Pf = Valid Pf (Fin 1)"
    by (simp_all add: fieldCheck_def validate_500 validate_1)
  have v: "validIds ?p = [Kw, Pf]" and nr: "\<forall>k\<in>set inputIds. \<not> isRejection (fieldCheck ?p k)"
    using fc by (simp_all add: validIds_def inputIds_def)
  have pv: "parseFloat (el_value (inputs ?p Kw)) = Fin 500" "parseFloat (el_value (inputs ?p Pf)) = Fin 1"
    using fieldCheck_Valid[OF fc(1)] fieldCheck_Valid[OF fc(4)] by simp_all
  have r: "resolve [(Kw, parseFloat (el_value (inputs ?p Kw))), (Pf, parseFloat (el_value (inputs ?p Pf)))] =
     Inr \<lparr>res_kw = Fin 500, res_kva = Fin 500, res_kvar = Fin 0, res_pf = Fin 1\<rparr>"
    unfolding pv by (rule resolve_500_1)
  have d: "initialCalculationDone (calculatePowerFactor sampleToString ?p)"
    and i: "sourceFieldIds (calculatePowerFactor sampleToString ?p) = [Kw, Pf]"
    using calc_unlocked_two_ok[OF u v nr r] by blast+
  have sv: "sourceValuesOf ?p [Kw, Pf] = [(Kw, Fin 500), (Pf, Fin 1)]"
    using pv by (simp add: sourceValuesOf_def)
  obtain res where r2: "resolve (sourceValuesOf ?p (sourceFieldIds (calculatePowerFactor sampleToString ?p))) = Inr res"
    and z: "\<forall>k x. k \<notin> set (sourceFieldIds (calculatePowerFactor sampleToString ?p)) \<and>
                   resultOf res k = Fin x \<and> \<bar>x\<bar> < 1 / 10 ^ 9 \<longrightarrow>
                   el_value (inputs (calculatePowerFactor sampleToString ?p) k) = ''0.000'' \<and>
                   el_readOnly (inputs (calculatePowerFactor sampleToString ?p) k)"
    using tiny_results_show_zero[OF d] by blast
  have "res = \<lparr>res_kw = Fin 500, res_kva = Fin 500, res_kvar = Fin 0, res_pf = Fin 1\<rparr>"
    using r2 unfolding i sv resolve_500_1 by simp
  then have "resultOf res Kvar = Fin 0" by simp
  then have "el_value (inputs (calculatePowerFactor sampleToString ?p) Kvar) = ''0.000''"
    using z i by simp
  then show ?thesis using d i resolve_500_1 by simp
qed

text \<open>
  Claim C7. On a panel with no lock where no field is rejected (every field is blank or
  holds a valid value) and the number of valid fields is not two, the recomputation leaves
  the session unlocked with no source, computes no value (every field keeps its text, but
  for a read-only field, which is emptied, and all fields are editable), and the status is
  empty for no valid field, asks for one more value for one, and asks for exactly two
  values for more than two.
\<close>

theorem count_not_two_stays_unlocked:
  assumes "\<not> initialCalculationDone s"
    and "\<forall>k\<in>set inputIds. \<not> isRejection (fieldCheck s k)"
    and "length (validIds s) \<noteq> 2"
  shows "\<not> initialCalculationDone (calculatePowerFactor nts s) \<and>
         sourceFieldIds (calculatePowerFactor nts s) = [] \<and>
         statusText (calculatePowerFactor nts s) =
           (if length (validIds s) = 0 then ''''
            else if length (validIds s) = 1 then ''Please provide one more value.''
            else ''Please provide exactly two values.'') \<and>
         (\<forall>k. \<not> el_readOnly (inputs (calculatePowerFactor nts s) k) \<and>
              el_value (inputs (calculatePowerFactor nts s) k) =
                (if el_readOnly (inputs s k) then '''' else el_value (inputs s k)))"
proof -
  have c: "calculatePowerFactor nts s =
      resetToInitialState (s\<lparr>statusText := countMessage (length (validIds s))\<rparr>)"
    using calc_unlocked[OF assms(1), of nts] assms(2,3) by auto
  have np: "\<not> unparseable (el_value (inputs s k))" for k
  proof
    assume "unparseable (el_value (inputs s k))"
    then have "isRejection (fieldCheck s k)" by (simp add: unparseable_iff[of _ k] fieldCheck_def)
    then show False using assms(2) fid_cases4[of k] by (auto simp: inputIds_def)
  qed
  have st: "countMessage (length (validIds s)) =
           (if length (validIds s) = 0 then ''''
            else if length (validIds s) = 1 then ''Please provide one more value.''
            else ''Please provide exactly two values.'')"
  proof -
    have "length (validIds s) = 0 \<or> length (validIds s) = 1 \<or> 2 < length (validIds s)"
      using assms(3) by arith
    then show ?thesis by (auto simp: countMessage_def)
  qed
  show ?thesis unfolding c using st np
    by (simp add: resetInput_eq)
qed

lemma validate_300: "validate Kw ''300'' = Valid Kw (Fin 300)"
  by (simp add: validate_def inDomain_def parse_defs js_gt_def)

text \<open>The instance of one value, \<open>P = 300\<close>, typed into the initial panel.\<close>

theorem one_value_stays_unlocked:
  "\<not> initialCalculationDone (calculatePowerFactor sampleToString (setValue Kw ''300'' initialPanel)) \<and>
   sourceFieldIds (calculatePowerFactor sampleToString (setValue Kw ''300'' initialPanel)) = [] \<and>
   statusText (calculatePowerFactor sampleToString (setValue Kw ''300'' initialPanel)) = ''Please provide one more value.'' \<and>
   el_value (inputs (calculatePowerFactor sampleToString (setValue Kw ''300'' initialPanel)) Kw) = ''300'' \<and>
   el_value (inputs (calculatePowerFactor sampleToString (setValue Kw ''300'' initialPanel)) Kva) = '''' \<and>
   el_value (inputs (calculatePowerFactor sampleToString (setValue Kw ''300'' initialPanel)) Kvar) = '''' \<and>
   el_value (inputs (calculatePowerFactor sampleToString (setValue Kw ''300'' initialPanel)) Pf) = ''''"
proof -
  let ?p = "setValue Kw ''300'' initialPanel"
  have u: "\<not> initialCalculationDone ?p" by simp
  have fc: "fieldCheck ?p Kw = Valid Kw (Fin 300)" "fieldCheck ?p Kva = Empty"
    "fieldCheck ?p Kvar = Empty" "fieldCheck ?p Pf = Empty"
    by (simp_all add: fieldCheck_def validate_300)
  have v: "validIds ?p = [Kw]" and nr: "\<forall>k\<in>set inputIds. \<not> isRejection (fieldCheck ?p k)"
    using fc by (simp_all add: validIds_def inputIds_def)
  have n2: "length (validIds ?p) \<noteq> 2" using v by simp
  show ?thesis using count_not_two_stays_unlocked[OF u nr n2, of sampleToString] v by simp
qed

section \<open>Failure while locked; the validator\<close>

lemma toFixed_400: "toFixed nts 3 (Fin 400) = ''400.000''"
proof -
  have "natDigits 400000 = ''400000''" by (simp add: natDigits.simps digitChar_def)
  then show ?thesis by (simp add: toFixed_def Let_def)
qed

lemma toFixed_06: "toFixed nts 3 (Fin (3 / 5)) = ''0.600''"
proof -
  have "natDigits 600 = ''600''" by (simp add: natDigits.simps digitChar_def)
  then show ?thesis by (simp add: toFixed_def Let_def)
qed

lemma validate_kva_500: "validate Kva ''500'' = Valid Kva (Fin 500)"
  by (simp add: validate_def inDomain_def parse_defs)

lemma lockedExample_eq:
  "lockedExample =
     \<lparr>inputs = (\<lambda>k. case k of
          Kw \<Rightarrow> \<lparr>el_value = ''300'', el_readOnly = False, el_placeholder = ''Enter value''\<rparr>
        | Kva \<Rightarrow> \<lparr>el_value = ''500'', el_readOnly = False, el_placeholder = ''Enter value''\<rparr>
        | Kvar \<Rightarrow> \<lparr>el_value = ''400.000'', el_readOnly = True, el_placeholder = ''Calculated''\<rparr>
        | Pf \<Rightarrow> \<lparr>el_value = ''0.600'', el_readOnly = True, el_placeholder = ''Calculated''\<rparr>),
      statusText = '''', initialCalculationDone = True, sourceFieldIds = [Kw, Kva]\<rparr>"
proof -
  let ?p = "setValue Kva ''500'' (setValue Kw ''300'' initialPanel)"
  have u: "\<not> initialCalculationDone ?p" by simp
  have fc: "fieldCheck ?p Kw = Valid Kw (Fin 300)" "fieldCheck ?p Kva = Valid Kva (Fin 500)"
    "fieldCheck ?p Kvar = Empty" "fieldCheck ?p Pf = Empty"
    by (simp_all add: fieldCheck_def validate_300 validate_kva_500)
  have v: "validIds ?p = [Kw, Kva]" and nr: "\<forall>k\<in>set inputIds. \<not> isRejection (fieldCheck ?p k)"
    using fc by (simp_all add: validIds_def inputIds_def)
  have pv: "parseFloat (el_value (inputs ?p Kw)) = Fin 300" "parseFloat (el_value (inputs ?p Kva)) = Fin 500"
    using fieldCheck_Valid[OF fc(1)] fieldCheck_Valid[OF fc(2)] by simp_all
  have r: "resolve [(Kw, parseFloat (el_value (inputs ?p Kw))), (Kva, parseFloat (el_value (inputs ?p Kva)))] =
     Inr \<lparr>res_kw = Fin 300, res_kva = Fin 500, res_kvar = Fin 400, res_pf = Fin (3 / 5)\<rparr>"
    unfolding pv by (rule resolve_300_500)
  note c = calc_unlocked_two_ok[OF u v nr r, of sampleToString]
  show ?thesis
    unfolding lockedExample_def
  proof (rule panel_eqI)
    show "inputs (calculatePowerFactor sampleToString ?p) =
          inputs \<lparr>inputs = (\<lambda>k. case k of
          Kw \<Rightarrow> \<lparr>el_value = ''300'', el_readOnly = False, el_placeholder = ''Enter value''\<rparr>
        | Kva \<Rightarrow> \<lparr>el_value = ''500'', el_readOnly = False, el_placeholder = ''Enter value''\<rparr>
        | Kvar \<Rightarrow> \<lparr>el_value = ''400.000'', el_readOnly = True, el_placeholder = ''Calculated''\<rparr>
        | Pf \<Rightarrow> \<lparr>el_value = ''0.600'', el_readOnly = True, el_placeholder = ''Calculated''\<rparr>),
      statusText = '''', initialCalculationDone = True, sourceFieldIds = [Kw, Kva]\<rparr>"
    proof (rule ext)
      fix k
      show "inputs (calculatePowerFactor sampleToString ?p) k =
          inputs \<lparr>inputs = (\<lambda>k. case k of
          Kw \<Rightarrow> \<lparr>el_value = ''300'', el_readOnly = False, el_placeholder = ''Enter value''\<rparr>
        | Kva \<Rightarrow> \<lparr>el_value = ''500'', el_readOnly = False, el_placeholder = ''Enter value''\<rparr>
        | Kvar \<Rightarrow> \<lparr>el_value = ''400.000'', el_readOnly = True, el_placeholder = ''Calculated''\<rparr>
        | Pf \<Rightarrow> \<lparr>el_value = ''0.600'', el_readOnly = True, el_placeholder = ''Calculated''\<rparr>),
      statusText = '''', initialCalculationDone = True, sourceFieldIds = [Kw, Kva]\<rparr> k"
        by (cases k)
           (simp_all add: c(4) showResult_eq snap_def toFixed_400 toFixed_06 defaultPlaceholder_def)
    qed
  qed (simp_all add: c)
qed

lemma locked_outcome:
  assumes "initialCalculationDone s"
  shows "if (\<forall>k\<in>set (sourceFieldIds s). isValid (fieldCheck s k)) \<and>
            (\<exists>res. resolve (sourceValuesOf s (sourceFieldIds s)) = Inr res)
         then initialCalculationDone (calculatePowerFactor nts s) \<and>
              sourceFieldIds (calculatePowerFactor nts s) = sourceFieldIds s
         else resetLike s (calculatePowerFactor nts s)"
proof (cases "\<forall>k\<in>set (sourceFieldIds s). isValid (fieldCheck s k)")
  case False
  then show ?thesis using calc_locked_failed[OF assms] by auto
next
  case True
  note c = calc_locked_ok[OF assms True, of nts]
  show ?thesis
  proof (cases "resolve (sourceValuesOf s (sourceFieldIds s))")
    case (Inl m)
    then show ?thesis using True c
      by (simp add: performCalculation_Inl resetLike_def fun_eq_iff)
  next
    case (Inr res)
    then show ?thesis using True c
      by (simp add: performCalculation_Inr[OF Inr])
  qed
qed

lemma resetLike_fields:
  "resetLike s r \<Longrightarrow>
     \<not> initialCalculationDone r \<and> sourceFieldIds r = [] \<and>
     (\<forall>k. \<not> el_readOnly (inputs r k) \<and>
          el_value (inputs r k) =
            (if el_readOnly (inputs s k) \<or> unparseable (el_value (inputs s k)) then '''' else el_value (inputs s k)))"
  by (simp add: resetLike_def resetInput_eq)

text \<open>
  Claim C6, as amended. A recomputation of a locked panel either succeeds (both locked
  fields are valid and the resolver accepts the pair), and then the session stays locked
  on the same sources, or fails (a locked field is empty, unparseable or out of domain, or
  the resolver rejects the pair), and then the session is unlocked with no source, all four
  fields are editable, every read-only (derived) field and every field holding unparseable
  text is emptied, and every other field keeps its text.
\<close>

theorem locked_failure_resets:
  assumes "initialCalculationDone s"
  shows "if (\<forall>k\<in>set (sourceFieldIds s). isValid (fieldCheck s k)) \<and>
            (\<exists>res. resolve (sourceValuesOf s (sourceFieldIds s)) = Inr res)
         then initialCalculationDone (calculatePowerFactor nts s) \<and>
              sourceFieldIds (calculatePowerFactor nts s) = sourceFieldIds s
         else \<not> initialCalculationDone (calculatePowerFactor nts s) \<and>
              sourceFieldIds (calculatePowerFactor nts s) = [] \<and>
              (\<forall>k. \<not> el_readOnly (inputs (calculatePowerFactor nts s) k) \<and>
                   el_value (inputs (calculatePowerFactor nts s) k) =
                     (if el_readOnly (inputs s k) \<or> unparseable (el_value (inputs s k)) then ''''
                      else el_value (inputs s k)))"
  using locked_outcome[OF assms, of nts] resetLike_fields[of s "calculatePowerFactor nts s"]
  by (auto split: if_splits)

lemma lockedExample_simps:
  "initialCalculationDone lockedExample"
  "sourceFieldIds lockedExample = [Kw, Kva]"
  "inputs lockedExample Kw = \<lparr>el_value = ''300'', el_readOnly = False, el_placeholder = ''Enter value''\<rparr>"
  "inputs lockedExample Kva = \<lparr>el_value = ''500'', el_readOnly = False, el_placeholder = ''Enter value''\<rparr>"
  "inputs lockedExample Kvar = \<lparr>el_value = ''400.000'', el_readOnly = True, el_placeholder = ''Calculated''\<rparr>"
  "inputs lockedExample Pf = \<lparr>el_value = ''0.600'', el_readOnly = True, el_placeholder = ''Calculated''\<rparr>"
  by (simp_all add: lockedExample_eq)

lemma parse_abc: "parseFloat ''abc'' = NaN" "trim ''abc'' = ''abc''"
  by (simp_all add: parse_defs)

lemma parse_400_000: "parseFloat ''400.000'' = Fin 400"
  by (simp add: parse_defs)

text \<open>
  The instance: locked on \<open>P = 300\<close>, \<open>S = 500\<close>, then \<open>abc\<close> put in the field of \<open>S\<close>. The
  session is reset, all fields are editable, \<open>P\<close> keeps \<open>300\<close>, and the unparseable \<open>S\<close> and
  the two derived fields are emptied.
\<close>

theorem locked_failure_resets_witness:
  "initialCalculationDone (setValue Kva ''abc'' lockedExample) \<and>
   \<not> initialCalculationDone (calculatePowerFactor sampleToString (setValue Kva ''abc'' lockedExample)) \<and>
   sourceFieldIds (calculatePowerFactor sampleToString (setValue Kva ''abc'' lockedExample)) = [] \<and>
   el_value (inputs (calculatePowerFactor sampleToString (setValue Kva ''abc'' lockedExample)) Kw) = ''300'' \<and>
   el_value (inputs (calculatePowerFactor sampleToString (setValue Kva ''abc'' lockedExample)) Kva) = '''' \<and>
   el_value (inputs (calculatePowerFactor sampleToString (setValue Kva ''abc'' lockedExample)) Kvar) = '''' \<and>
   el_value (inputs (calculatePowerFactor sampleToString (setValue Kva ''abc'' lockedExample)) Pf) = '''' \<and>
   \<not> el_readOnly (inputs (calculatePowerFactor sampleToString (setValue Kva ''abc'' lockedExample)) Kw) \<and>
   \<not> el_readOnly (inputs (calculatePowerFactor sampleToString (setValue Kva ''abc'' lockedExample)) Kva) \<and>
   \<not> el_readOnly (inputs (calculatePowerFactor sampleToString (setValue Kva ''abc'' lockedExample)) Kvar) \<and>
   \<not> el_readOnly (inputs (calculatePowerFactor sampleToString (setValue Kva ''abc'' lockedExample)) Pf)"
proof -
  let ?s = "setValue Kva ''abc'' lockedExample"
  have d: "initialCalculationDone ?s" by (simp add: lockedExample_simps)
  have bad: "\<not> isValid (fieldCheck ?s Kva)"
    by (simp add: fieldCheck_def validate_def parse_abc)
  have nok: "\<not> ((\<forall>k\<in>set (sourceFieldIds ?s). isValid (fieldCheck ?s k)) \<and>
            (\<exists>res. resolve (sourceValuesOf ?s (sourceFieldIds ?s)) = Inr res))"
    using bad by (simp add: lockedExample_simps)
  have u: "unparseable ''abc''" "\<not> unparseable ''300''"
    by (simp_all add: unparseable_def parse_abc parse_defs)
  note e = locked_failure_resets[OF d, of sampleToString, unfolded if_not_P[OF nok]]
  show ?thesis
    using e d u by (simp add: lockedExample_simps)
qed

text \<open>
  The claim as first stated keeps every numeric text. Locked on \<open>P = 300\<close>, \<open>S = 500\<close>, the
  derived field of \<open>Q\<close> holds the numeric text \<open>400.000\<close>; when the field of \<open>P\<close> is emptied,
  the reset empties the field of \<open>Q\<close> too.
\<close>

theorem derived_numeric_text_cleared:
  "initialCalculationDone lockedExample \<and>
   el_value (inputs lockedExample Kvar) = ''400.000'' \<and>
   parseFloat ''400.000'' = Fin 400 \<and>
   \<not> initialCalculationDone (calculatePowerFactor sampleToString (setValue Kw '''' lockedExample)) \<and>
   el_value (inputs (calculatePowerFactor sampleToString (setValue Kw '''' lockedExample)) Kvar) = ''''"
proof -
  let ?s = "setValue Kw '''' lockedExample"
  have d: "initialCalculationDone ?s" by (simp add: lockedExample_simps)
  have bad: "\<not> isValid (fieldCheck ?s Kw)"
    by (simp add: fieldCheck_def)
  then have "resetLike ?s (calculatePowerFactor sampleToString ?s)"
    using locked_outcome[OF d, of sampleToString] by (simp add: lockedExample_simps)
  then show ?thesis
    using resetLike_fields[of ?s "calculatePowerFactor sampleToString ?s"]
    by (simp add: lockedExample_simps parse_400_000)
qed

text \<open>
  Claim C5. The validation of one quantity classifies its raw text in exactly one of four
  outcomes, a function of the quantity and the text alone (not of the session): \<open>Empty\<close> for
  a text that is empty (or blank); \<open>InvalidFormat\<close> of this quantity for a text that is not
  numeric; \<open>OutOfDomain\<close> of this quantity for a number that is negative or, for the power
  factor, above \<open>1\<close>; \<open>Valid\<close> with the parsed number otherwise. The loop over the inputs in
  initial mode does with each field what its outcome says: nothing for \<open>Empty\<close>, a status
  naming the field and the error flag for the two rejections, one more valid input for
  \<open>Valid\<close>. The loop over the locked fields acts on the same outcome of a locked field
  (the tracker resets on every outcome but \<open>Valid\<close>).
\<close>

theorem validation_classifies:
  "initialStep (s, ob, n, h) k =
     (case validate k (el_value (inputs s k)) of
        Empty \<Rightarrow> (s, ob, n, h)
      | InvalidFormat j \<Rightarrow>
          (s\<lparr>statusText := ''Invalid number entered for '' @ toUpperCase (idOf j) @ ''.''\<rparr>, ob, n, True)
      | OutOfDomain j \<Rightarrow>
          (s\<lparr>statusText := (if j = Pf then ''Power Factor (PF) must be between 0 and 1.''
                             else ''Value for '' @ toUpperCase (idOf j) @ '' cannot be negative.'')\<rparr>, ob, n, True)
      | Valid j v \<Rightarrow> (s, setProp j v ob, n + 1, h)) \<and>
   recalcStep (s, True, ob) k =
     (case validate k (el_value (inputs s k)) of
        Empty \<Rightarrow>
          (resetToInitialState
             (s\<lparr>statusText := ''Please provide a valid number for '' @ toUpperCase (idOf k) @ ''.''\<rparr>), False, ob)
      | InvalidFormat j \<Rightarrow>
          (resetToInitialState
             (s\<lparr>statusText := ''Please provide a valid number for '' @ toUpperCase (idOf j) @ ''.''\<rparr>), False, ob)
      | OutOfDomain j \<Rightarrow>
          (resetToInitialState
             (s\<lparr>statusText := (if j = Pf then ''Power Factor (PF) must be between 0 and 1.''
                                else ''Value for '' @ toUpperCase (idOf j) @ '' cannot be negative.'')\<rparr>), False, ob)
      | Valid j v \<Rightarrow> (s, True, setProp j v ob)) \<and>
   (validate k t = Empty) = (trim t = '''') \<and>
   (validate k t = InvalidFormat j) = (j = k \<and> trim t \<noteq> '''' \<and> isNaN (parseFloat t)) \<and>
   (validate k t = OutOfDomain j) =
     (j = k \<and> trim t \<noteq> '''' \<and> \<not> isNaN (parseFloat t) \<and>
      (js_lt (parseFloat t) (Fin 0) \<or> k = Pf \<and> js_gt (parseFloat t) (Fin 1))) \<and>
   (validate k t = Valid j v) =
     (j = k \<and> v = parseFloat t \<and> trim t \<noteq> '''' \<and> \<not> isNaN v \<and> \<not> js_lt v (Fin 0) \<and>
      \<not> (k = Pf \<and> js_gt v (Fin 1)))"
proof -
  have a: "initialStep (s, ob, n, h) k =
     (case validate k (el_value (inputs s k)) of
        Empty \<Rightarrow> (s, ob, n, h)
      | InvalidFormat j \<Rightarrow>
          (s\<lparr>statusText := ''Invalid number entered for '' @ toUpperCase (idOf j) @ ''.''\<rparr>, ob, n, True)
      | OutOfDomain j \<Rightarrow>
          (s\<lparr>statusText := (if j = Pf then ''Power Factor (PF) must be between 0 and 1.''
                             else ''Value for '' @ toUpperCase (idOf j) @ '' cannot be negative.'')\<rparr>, ob, n, True)
      | Valid j v \<Rightarrow> (s, setProp j v ob, n + 1, h))"
    by (cases "validate k (el_value (inputs s k))")
       (simp_all add: initialStep_validate fieldCheck_def formatMessage_def domainMessage_def)
  have b: "recalcStep (s, True, ob) k =
     (case validate k (el_value (inputs s k)) of
        Empty \<Rightarrow>
          (resetToInitialState
             (s\<lparr>statusText := ''Please provide a valid number for '' @ toUpperCase (idOf k) @ ''.''\<rparr>), False, ob)
      | InvalidFormat j \<Rightarrow>
          (resetToInitialState
             (s\<lparr>statusText := ''Please provide a valid number for '' @ toUpperCase (idOf j) @ ''.''\<rparr>), False, ob)
      | OutOfDomain j \<Rightarrow>
          (resetToInitialState
             (s\<lparr>statusText := (if j = Pf then ''Power Factor (PF) must be between 0 and 1.''
                                else ''Value for '' @ toUpperCase (idOf j) @ '' cannot be negative.'')\<rparr>), False, ob)
      | Valid j v \<Rightarrow> (s, True, setProp j v ob))"
    by (cases "validate k (el_value (inputs s k))")
       (simp_all add: recalcStep_validate fieldCheck_def lockedMessage_def domainMessage_def)
  have c: "(validate k t = Empty) = (trim t = '''')"
    by (simp add: validate_def)
  have d: "(validate k t = InvalidFormat j) = (j = k \<and> trim t \<noteq> '''' \<and> isNaN (parseFloat t))"
    by (auto simp add: validate_def)
  have e: "(validate k t = OutOfDomain j) =
     (j = k \<and> trim t \<noteq> '''' \<and> \<not> isNaN (parseFloat t) \<and>
      (js_lt (parseFloat t) (Fin 0) \<or> k = Pf \<and> js_gt (parseFloat t) (Fin 1)))"
    by (auto simp add: validate_def inDomain_def)
  have f: "(validate k t = Valid j v) =
     (j = k \<and> v = parseFloat t \<and> trim t \<noteq> '''' \<and> \<not> isNaN v \<and> \<not> js_lt v (Fin 0) \<and>
      \<not> (k = Pf \<and> js_gt v (Fin 1)))"
    by (auto simp add: validate_def inDomain_def)
  show ?thesis using a b c d e f by blast
qed

lemma parse_neg5: "parseFloat ''-5'' = Fin (- 5)" "trim ''-5'' = ''-5''"
  by (simp_all add: parse_defs)

lemma parse_1p5: "parseFloat ''1.5'' = Fin (3 / 2)" "trim ''1.5'' = ''1.5''"
  by (simp_all add: parse_defs)

text \<open>One text for each outcome.\<close>

theorem validation_classifies_witness:
  "validate Kw '''' = Empty \<and> validate Kw ''abc'' = InvalidFormat Kw \<and>
   validate Kw ''-5'' = OutOfDomain Kw \<and> validate Pf ''1.5'' = OutOfDomain Pf \<and>
   validate Kva ''500'' = Valid Kva (Fin 500)"
proof -
  have 1: "validate Kw '''' = Empty"
    using validation_classifies[of _ _ _ _ Kw "''''"] by simp
  have 2: "validate Kw ''abc'' = InvalidFormat Kw"
    using validation_classifies[of _ _ _ _ Kw "''abc''" Kw] by (simp add: parse_abc)
  have 3: "validate Kw ''-5'' = OutOfDomain Kw"
    using validation_classifies[of _ _ _ _ Kw "''-5''" Kw] by (simp add: parse_neg5)
  have 4: "validate Pf ''1.5'' = OutOfDomain Pf"
    using validation_classifies[of _ _ _ _ Pf "''1.5''" Pf] by (simp add: parse_1p5 js_gt_def)
  have 5: "validate Kva ''500'' = Valid Kva (Fin 500)"
    using validation_classifies[of _ _ _ _ Kva "''500''" Kva "Fin 500"] by (simp add: parse_defs)
  show ?thesis using 1 2 3 4 5 by simp
qed

section \<open>The lock\<close>

lemma clearFields_session [simp]:
  "\<not> initialCalculationDone (clearFields s)"
  "sourceFieldIds (clearFields s) = []"
  by (simp_all add: clearFields_def)

lemma calc_not_done:
  assumes "\<not> initialCalculationDone (calculatePowerFactor nts s)"
  shows "sourceFieldIds (calculatePowerFactor nts s) = []"
proof (cases "initialCalculationDone s")
  case True
  then show ?thesis using locked_outcome[OF True, of nts] assms
    by (auto simp: resetLike_def split: if_splits)
next
  case False
  obtain m where c: "calculatePowerFactor nts s =
     (if \<exists>k\<in>set inputIds. isRejection (fieldCheck s k) then resetToInitialState (s\<lparr>statusText := m\<rparr>)
      else if length (validIds s) \<noteq> 2 then resetToInitialState (s\<lparr>statusText := countMessage (length (validIds s))\<rparr>)
      else performCalculation nts (s\<lparr>statusText := '''', sourceFieldIds := validIds s\<rparr>)
             (sourceValuesOf s (validIds s)) (targetsOf (validIds s)))"
    using calc_unlocked[OF False] by blast
  show ?thesis
  proof (cases "resolve (sourceValuesOf s (validIds s))")
    case (Inl msg)
    then show ?thesis unfolding c by (simp add: performCalculation_Inl)
  next
    case (Inr res)
    then show ?thesis using assms unfolding c
      by (auto simp add: performCalculation_Inr[OF Inr] split: if_splits)
  qed
qed

lemma calc_done_ids:
  assumes "initialCalculationDone (calculatePowerFactor nts s)"
    and "initialCalculationDone s \<Longrightarrow> length (sourceFieldIds s) = 2 \<and> distinct (sourceFieldIds s)"
  shows "length (sourceFieldIds (calculatePowerFactor nts s)) = 2 \<and>
         distinct (sourceFieldIds (calculatePowerFactor nts s))"
proof -
  obtain s1 res where c: "calculatePowerFactor nts s =
             performCalculation nts s1 (sourceValuesOf s (sourceFieldIds s1)) (targetsOf (sourceFieldIds s1))"
    and r: "resolve (sourceValuesOf s (sourceFieldIds s1)) = Inr res"
    and i: "if initialCalculationDone s
            then sourceFieldIds s1 = sourceFieldIds s \<and> (\<forall>k\<in>set (sourceFieldIds s). isValid (fieldCheck s k))
            else sourceFieldIds s1 = validIds s \<and> length (validIds s) = 2 \<and>
                 (\<forall>k\<in>set inputIds. \<not> isRejection (fieldCheck s k))"
    using calc_success[OF assms(1)] by blast
  have "sourceFieldIds (calculatePowerFactor nts s) = sourceFieldIds s1"
    unfolding c by (rule performCalculation_Inr(4)[OF r])
  then show ?thesis using i assms(2) by (auto split: if_splits)
qed

lemma reachable_lock:
  "reachable nts s \<Longrightarrow>
     (if initialCalculationDone s then length (sourceFieldIds s) = 2 \<and> distinct (sourceFieldIds s)
      else sourceFieldIds s = [])"
proof (induction rule: reachable.induct)
  case reach_init
  then show ?case by simp
next
  case (reach_edit s k t)
  then show ?case by simp
next
  case (reach_recompute s)
  show ?case
  proof (cases "initialCalculationDone (calculatePowerFactor nts s)")
    case True
    then show ?thesis using calc_done_ids[OF True] reach_recompute.IH by (auto split: if_splits)
  next
    case False
    then show ?thesis using calc_not_done[OF False] by simp
  qed
next
  case (reach_clear s)
  then show ?case by simp
qed

subsection \<open>A text outside the lock\<close>

lemma agreeOff_refl_setValue: "agreeOff c s (setValue c t s)"
  by (simp add: agreeOff_def)

lemma agreeOff_inputs: "agreeOff c a b \<Longrightarrow> k \<noteq> c \<Longrightarrow> inputs a k = inputs b k"
  by (simp add: agreeOff_def element.equality)

lemma agreeOff_fieldCheck: "agreeOff c a b \<Longrightarrow> k \<noteq> c \<Longrightarrow> fieldCheck a k = fieldCheck b k"
  by (simp add: fieldCheck_def agreeOff_inputs)

lemma agreeOff_reset: "agreeOff c a b \<Longrightarrow> agreeOff c (resetToInitialState a) (resetToInitialState b)"
  by (simp add: agreeOff_def resetInput_eq)

lemma agreeOff_status: "agreeOff c a b \<Longrightarrow> agreeOff c (a\<lparr>statusText := m\<rparr>) (b\<lparr>statusText := m\<rparr>)"
  by (simp add: agreeOff_def)

lemma recalcStep_agree:
  assumes "agreeOff c a b" "k \<noteq> c"
  shows "\<exists>a' b' p' ob'. recalcStep (a, p, ob) k = (a', p', ob') \<and> recalcStep (b, p, ob) k = (b', p', ob') \<and>
           agreeOff c a' b'"
  using assms agreeOff_fieldCheck[OF assms]
  by (cases "fieldCheck b k")
     (auto simp add: recalcStep_validate agreeOff_reset agreeOff_status)

lemma recalc_fold_agree:
  assumes "agreeOff c a b" "c \<notin> set ks"
  shows "\<exists>a' b' p' ob'. foldl recalcStep (a, p, ob) ks = (a', p', ob') \<and>
           foldl recalcStep (b, p, ob) ks = (b', p', ob') \<and> agreeOff c a' b'"
  using assms
proof (induction ks arbitrary: a b p ob)
  case Nil
  then show ?case by simp
next
  case (Cons k ks)
  then have "k \<noteq> c" "c \<notin> set ks" by auto
  obtain a1 b1 p1 ob1 where s: "recalcStep (a, p, ob) k = (a1, p1, ob1)" "recalcStep (b, p, ob) k = (b1, p1, ob1)"
    and ag: "agreeOff c a1 b1"
    using recalcStep_agree[OF Cons.prems(1) \<open>k \<noteq> c\<close>] by blast
  show ?case using Cons.IH[OF ag \<open>c \<notin> set ks\<close>, of p1 ob1] s by simp
qed

lemma sourceValuesOf_agree:
  assumes "agreeOff c a b" "c \<notin> set ks"
  shows "sourceValuesOf a ks = sourceValuesOf b ks"
proof -
  have "foldl (\<lambda>ob k. setProp k (parseFloat (el_value (inputs a k))) ob) ob ks =
        foldl (\<lambda>ob k. setProp k (parseFloat (el_value (inputs b k))) ob) ob ks" for ob
    using assms(2)
  proof (induction ks arbitrary: ob)
    case Nil
    then show ?case by simp
  next
    case (Cons k ks)
    then have "inputs a k = inputs b k" using agreeOff_inputs[OF assms(1), of k] by auto
    then show ?case using Cons by simp
  qed
  then show ?thesis by (simp add: sourceValuesOf_def)
qed

lemma agreeOff_clearStatus: "agreeOff c a b \<Longrightarrow> agreeOff c (clearStatus a) (clearStatus b)"
  by (simp add: agreeOff_def)

lemma showResult_agree:
  "el_placeholder e = el_placeholder e' \<Longrightarrow> showResult nts k v e = showResult nts k v e'"
  by (simp add: showResult_eq)

lemma outside_text_ignored:
  assumes "initialCalculationDone s" "c \<notin> set (sourceFieldIds s)"
  shows "agreeOff c (calculatePowerFactor nts s) (calculatePowerFactor nts (setValue c t s)) \<and>
         (initialCalculationDone (calculatePowerFactor nts s) \<longrightarrow>
            calculatePowerFactor nts (setValue c t s) = calculatePowerFactor nts s)"
proof -
  let ?s' = "setValue c t s"
  have ag: "agreeOff c s ?s'" by (rule agreeOff_refl_setValue)
  have d': "initialCalculationDone ?s'" using assms(1) by simp
  have ids': "sourceFieldIds ?s' = sourceFieldIds s" by simp
  have fc: "fieldCheck ?s' k = fieldCheck s k" if "k \<in> set (sourceFieldIds s)" for k
    using agreeOff_fieldCheck[OF ag, of k] that assms(2) by metis
  show ?thesis
  proof (cases "\<forall>k\<in>set (sourceFieldIds s). isValid (fieldCheck s k)")
    case True
    then have True': "\<forall>k\<in>set (sourceFieldIds ?s'). isValid (fieldCheck ?s' k)"
      using fc by simp
    have sv: "sourceValuesOf ?s' (sourceFieldIds s) = sourceValuesOf s (sourceFieldIds s)"
      using sourceValuesOf_agree[OF ag assms(2)] by simp
    have c1: "calculatePowerFactor nts s =
        performCalculation nts (clearStatus s) (sourceValuesOf s (sourceFieldIds s)) (targetsOf (sourceFieldIds s))"
      using calc_locked_ok[OF assms(1) True] .
    have c2: "calculatePowerFactor nts ?s' =
        performCalculation nts (clearStatus ?s') (sourceValuesOf s (sourceFieldIds s)) (targetsOf (sourceFieldIds s))"
      using calc_locked_ok[OF d' True', of nts] sv by simp
    show ?thesis
    proof (cases "resolve (sourceValuesOf s (sourceFieldIds s))")
      case (Inl m)
      have "agreeOff c (resetToInitialState ((clearStatus s)\<lparr>statusText := ''Calculation Error: '' @ m\<rparr>))
              (resetToInitialState ((clearStatus ?s')\<lparr>statusText := ''Calculation Error: '' @ m\<rparr>))"
        by (intro agreeOff_reset agreeOff_status agreeOff_clearStatus ag)
      then show ?thesis unfolding c1 c2 by (simp add: performCalculation_Inl[OF Inl])
    next
      case (Inr res)
      have tc: "c \<in> set (targetsOf (sourceFieldIds s))" using assms(2) by (simp add: targetsOf_mem)
      have eq: "calculatePowerFactor nts ?s' = calculatePowerFactor nts s"
        unfolding c1 c2
      proof (rule panel_eqI)
        show "inputs (performCalculation nts (clearStatus ?s') (sourceValuesOf s (sourceFieldIds s)) (targetsOf (sourceFieldIds s))) =
              inputs (performCalculation nts (clearStatus s) (sourceValuesOf s (sourceFieldIds s)) (targetsOf (sourceFieldIds s)))"
        proof (rule ext)
          fix k
          show "inputs (performCalculation nts (clearStatus ?s') (sourceValuesOf s (sourceFieldIds s)) (targetsOf (sourceFieldIds s))) k =
              inputs (performCalculation nts (clearStatus s) (sourceValuesOf s (sourceFieldIds s)) (targetsOf (sourceFieldIds s))) k"
          proof (cases "k = c")
            case True
            then show ?thesis using tc assms(2)
              by (simp add: performCalculation_Inr(1)[OF Inr] showResult_agree[of "(inputs s c)\<lparr>el_value := t\<rparr>" "inputs s c"])
          next
            case False
            then show ?thesis by (simp add: performCalculation_Inr(1)[OF Inr] del: setReadOnly_False)
          qed
        qed
      qed (simp_all add: performCalculation_Inr[OF Inr])
      have "agreeOff c (calculatePowerFactor nts s) (calculatePowerFactor nts s)"
        by (simp add: agreeOff_def)
      then show ?thesis using eq by simp
    qed
  next
    case False
    obtain t' ob' where f: "foldl recalcStep (clearStatus s, True, []) (sourceFieldIds s) = (t', False, ob')"
      and rl: "resetLike (clearStatus s) t'"
      using recalc_fold_failed[of "sourceFieldIds s" "clearStatus s" "[]"] False by auto
    obtain a' b' p' ob2 where g: "foldl recalcStep (clearStatus s, True, []) (sourceFieldIds s) = (a', p', ob2)"
      "foldl recalcStep (clearStatus ?s', True, []) (sourceFieldIds s) = (b', p', ob2)" and ag': "agreeOff c a' b'"
      using recalc_fold_agree[OF agreeOff_clearStatus[OF ag] assms(2), of True "[]"] by blast
    have p: "p' = False" "a' = t'" using f g(1) by simp_all
    have r1: "calculatePowerFactor nts s = a'"
      using assms(1) g(1) p by (simp add: calculatePowerFactor_def Let_def)
    have r2: "calculatePowerFactor nts ?s' = b'"
      using d' g(2) p by (simp add: calculatePowerFactor_def Let_def)
    have "\<not> initialCalculationDone a'" using rl p by (simp add: resetLike_def)
    then show ?thesis using ag' r1 r2 by simp
  qed
qed

lemma locked_success_outputs:
  assumes "initialCalculationDone s" "initialCalculationDone (calculatePowerFactor nts s)"
  shows "sourceFieldIds (calculatePowerFactor nts s) = sourceFieldIds s \<and>
         (\<exists>res. resolve (sourceValuesOf s (sourceFieldIds s)) = Inr res \<and>
            (\<forall>k. (if k \<in> set (sourceFieldIds s) then True
                  else inputs (calculatePowerFactor nts s) k = showResult nts k (resultOf res k) (inputs s k))))"
proof -
  obtain s1 res where c: "calculatePowerFactor nts s =
             performCalculation nts s1 (sourceValuesOf s (sourceFieldIds s1)) (targetsOf (sourceFieldIds s1))"
    and r: "resolve (sourceValuesOf s (sourceFieldIds s1)) = Inr res"
    and i: "inputs s1 = inputs s" "sourceFieldIds s1 = sourceFieldIds s"
    using calc_success[OF assms(2)] assms(1) by auto
  have r': "resolve (sourceValuesOf s (sourceFieldIds s)) = Inr res" using r i(2) by simp
  have c': "calculatePowerFactor nts s =
             performCalculation nts s1 (sourceValuesOf s (sourceFieldIds s)) (targetsOf (sourceFieldIds s))"
    using c i(2) by simp
  show ?thesis
    unfolding c' using r' i
    by (auto simp add: performCalculation_Inr[OF r'] targetsOf_mem)
qed

text \<open>
  Claim C1. On every reachable panel the locked sources are none or two different inputs.
  When the session is locked, a recomputation either stays locked on the same two inputs,
  and then every other field shows the result the resolver gives for the values of these
  two, or ends with no lock and no source. Whatever text is put in an input outside the
  lock before the recomputation, the status, the session and every other text come out the
  same, and when the recomputation succeeds the whole panel is the same: the text of a
  derived field has no effect on the outputs.
\<close>

theorem lock_is_stable:
  assumes "reachable nts s"
  shows "(sourceFieldIds s = [] \<or> length (sourceFieldIds s) = 2 \<and> distinct (sourceFieldIds s)) \<and>
         (initialCalculationDone s \<longrightarrow>
            length (sourceFieldIds s) = 2 \<and>
            (initialCalculationDone (calculatePowerFactor nts s) \<longrightarrow>
               sourceFieldIds (calculatePowerFactor nts s) = sourceFieldIds s \<and>
               (\<exists>res. resolve (sourceValuesOf s (sourceFieldIds s)) = Inr res \<and>
                  (\<forall>k. k \<notin> set (sourceFieldIds s) \<longrightarrow>
                       inputs (calculatePowerFactor nts s) k = showResult nts k (resultOf res k) (inputs s k)))) \<and>
            (\<not> initialCalculationDone (calculatePowerFactor nts s) \<longrightarrow>
               sourceFieldIds (calculatePowerFactor nts s) = []) \<and>
            (\<forall>c t. c \<notin> set (sourceFieldIds s) \<longrightarrow>
               agreeOff c (calculatePowerFactor nts s) (calculatePowerFactor nts (setValue c t s)) \<and>
               (initialCalculationDone (calculatePowerFactor nts s) \<longrightarrow>
                  calculatePowerFactor nts (setValue c t s) = calculatePowerFactor nts s)))"
proof -
  note inv = reachable_lock[OF assms]
  have 1: "sourceFieldIds s = [] \<or> length (sourceFieldIds s) = 2 \<and> distinct (sourceFieldIds s)"
    using inv by (auto split: if_splits)
  have 2: "length (sourceFieldIds s) = 2" if "initialCalculationDone s"
    using inv that by simp
  have 3: "sourceFieldIds (calculatePowerFactor nts s) = sourceFieldIds s \<and>
               (\<exists>res. resolve (sourceValuesOf s (sourceFieldIds s)) = Inr res \<and>
                  (\<forall>k. k \<notin> set (sourceFieldIds s) \<longrightarrow>
                       inputs (calculatePowerFactor nts s) k = showResult nts k (resultOf res k) (inputs s k)))"
    if "initialCalculationDone s" "initialCalculationDone (calculatePowerFactor nts s)"
    using locked_success_outputs[OF that] by (auto split: if_splits)
  have 4: "sourceFieldIds (calculatePowerFactor nts s) = []"
    if "\<not> initialCalculationDone (calculatePowerFactor nts s)"
    using calc_not_done[OF that] .
  have 5: "agreeOff c (calculatePowerFactor nts s) (calculatePowerFactor nts (setValue c t s)) \<and>
               (initialCalculationDone (calculatePowerFactor nts s) \<longrightarrow>
                  calculatePowerFactor nts (setValue c t s) = calculatePowerFactor nts s)"
    if "initialCalculationDone s" "c \<notin> set (sourceFieldIds s)" for c t
    using outside_text_ignored[OF that] .
  show ?thesis using 1 2 3 4 5 by blast
qed

lemma lockedExample_recompute:
  "initialCalculationDone (calculatePowerFactor nts lockedExample)"
  "sourceValuesOf lockedExample [Kw, Kva] = [(Kw, Fin 300), (Kva, Fin 500)]"
proof -
  have fc: "fieldCheck lockedExample Kw = Valid Kw (Fin 300)" "fieldCheck lockedExample Kva = Valid Kva (Fin 500)"
    by (simp_all add: fieldCheck_def lockedExample_simps validate_300 validate_kva_500)
  have pv: "parseFloat (el_value (inputs lockedExample Kw)) = Fin 300"
    "parseFloat (el_value (inputs lockedExample Kva)) = Fin 500"
    using fieldCheck_Valid[OF fc(1)] fieldCheck_Valid[OF fc(2)] by simp_all
  show sv: "sourceValuesOf lockedExample [Kw, Kva] = [(Kw, Fin 300), (Kva, Fin 500)]"
    using pv by (simp add: sourceValuesOf_def)
  have ok: "(\<forall>k\<in>set (sourceFieldIds lockedExample). isValid (fieldCheck lockedExample k)) \<and>
            (\<exists>res. resolve (sourceValuesOf lockedExample (sourceFieldIds lockedExample)) = Inr res)"
    using fc sv resolve_300_500 by (simp add: lockedExample_simps)
  show "initialCalculationDone (calculatePowerFactor nts lockedExample)"
    using locked_outcome[OF lockedExample_simps(1), of nts, unfolded if_P[OF ok]] by simp
qed

text \<open>
  The instance: locked on \<open>P = 300\<close>, \<open>S = 500\<close> (a reachable panel), a recomputation stays
  locked on these two, and whatever text is put in a derived field, the recomputation gives
  the same panel, with \<open>Q = 400.000\<close> and \<open>F = 0.600\<close>.
\<close>

theorem lock_is_stable_witness:
  "reachable sampleToString lockedExample \<and> initialCalculationDone lockedExample \<and>
   sourceFieldIds lockedExample = [Kw, Kva] \<and>
   initialCalculationDone (calculatePowerFactor sampleToString lockedExample) \<and>
   sourceFieldIds (calculatePowerFactor sampleToString lockedExample) = [Kw, Kva] \<and>
   calculatePowerFactor sampleToString (setValue Kvar ''999'' lockedExample) =
     calculatePowerFactor sampleToString lockedExample \<and>
   calculatePowerFactor sampleToString (setValue Pf ''abc'' lockedExample) =
     calculatePowerFactor sampleToString lockedExample \<and>
   el_value (inputs (calculatePowerFactor sampleToString (setValue Kvar ''999'' lockedExample)) Kvar) = ''400.000'' \<and>
   el_value (inputs (calculatePowerFactor sampleToString (setValue Kvar ''999'' lockedExample)) Pf) = ''0.600''"
proof -
  have re: "reachable sampleToString lockedExample"
    unfolding lockedExample_def by (intro reachable.intros)
  note d = lockedExample_simps(1)
  note dr = lockedExample_recompute(1)[of sampleToString]
  note t = lock_is_stable[OF re]
  have ids: "sourceFieldIds (calculatePowerFactor sampleToString lockedExample) = [Kw, Kva]"
    using t d dr by (simp add: lockedExample_simps)
  obtain res where r: "resolve (sourceValuesOf lockedExample (sourceFieldIds lockedExample)) = Inr res"
    and out: "\<forall>k. k \<notin> set (sourceFieldIds lockedExample) \<longrightarrow>
                inputs (calculatePowerFactor sampleToString lockedExample) k =
                  showResult sampleToString k (resultOf res k) (inputs lockedExample k)"
    using t d dr by blast
  have res: "res = \<lparr>res_kw = Fin 300, res_kva = Fin 500, res_kvar = Fin 400, res_pf = Fin (3 / 5)\<rparr>"
    using r by (simp add: lockedExample_simps lockedExample_recompute(2) resolve_300_500)
  have e1: "calculatePowerFactor sampleToString (setValue Kvar ''999'' lockedExample) =
     calculatePowerFactor sampleToString lockedExample"
    using t d dr by (simp add: lockedExample_simps)
  have e2: "calculatePowerFactor sampleToString (setValue Pf ''abc'' lockedExample) =
     calculatePowerFactor sampleToString lockedExample"
    using t d dr by (simp add: lockedExample_simps)
  have v1: "el_value (inputs (calculatePowerFactor sampleToString lockedExample) Kvar) = ''400.000''"
    using out res by (simp add: lockedExample_simps showResult_eq snap_def toFixed_400)
  have v2: "el_value (inputs (calculatePowerFactor sampleToString lockedExample) Pf) = ''0.600''"
    using out res by (simp add: lockedExample_simps showResult_eq snap_def toFixed_06)
  show ?thesis using re d dr ids e1 e2 v1 v2 by (simp add: lockedExample_simps)
qed

section \<open>Debouncing\<close>

lemma natDigits_nonempty: "natDigits n \<noteq> ''''"
  by (subst natDigits.simps) simp

















lemma applyEdits_Cons [simp]:
  "applyEdits s (e # es) = applyEdits (setValue (fst (snd e)) (snd (snd e)) s) es"
  by (simp add: applyEdits_def)

lemma applyEdits_Nil [simp]: "applyEdits s [] = s"
  by (simp add: applyEdits_def)













lemma unparseable_3 [simp]: "\<not> unparseable ''3''"
  by (simp add: unparseable_def parse_defs)



end
